theory Spec2Isabelle
  imports Main "HOL-Library.Log_Nat" "HOL-Library.AList"
begin

section \<open>Python values and the built-ins the pipeline calls\<close>

text \<open>
  The three stages (\<^verbatim>\<open>rumah123_scraper.py\<close>, \<^verbatim>\<open>fetch_facilities.py\<close>,
  \<^verbatim>\<open>data_cleaning.py\<close>) exchange MongoDB documents: Python dicts from field names to
  scalars. A document is an association list; the scalars are \<^verbatim>\<open>None\<close>, floats
  (with NaN and the infinities), unbounded integers and strings. A finite float is
  represented by the rational it denotes; the sign of zero is not kept.
\<close>

datatype pyfloat = FNaN | FInf bool | FFin rat

datatype pyval = PNone | PFloat pyfloat | PInt int | PStr string

type_synonym doc = "(string \<times> pyval) list"

datatype py_error =
  ValueError | TypeError | OverflowError | KeyError | IndexError
  | RequestException | PyMongoError

subsection \<open>Characters and strings\<close>

definition is_digit :: "char \<Rightarrow> bool" where
  "is_digit c = (48 \<le> (of_char c :: nat) \<and> (of_char c :: nat) \<le> 57)"

definition digit_val :: "char \<Rightarrow> int" where
  "digit_val c = of_char c - 48"

text \<open>ASCII whitespace as \<^verbatim>\<open>str.isspace\<close> sees it: TAB..CR, FS..US and the space.\<close>

definition is_space :: "char \<Rightarrow> bool" where
  "is_space c = (let n = (of_char c :: nat) in (9 \<le> n \<and> n \<le> 13) \<or> (28 \<le> n \<and> n \<le> 32))"

definition strip :: "string \<Rightarrow> string" where
  "strip s = rev (dropWhile is_space (rev (dropWhile is_space s)))"

text \<open>
  The whitespace that \<^verbatim>\<open>int\<close> and \<^verbatim>\<open>float\<close> skip around a numeral: TAB..CR and the
  space, and not FS..US, which \<^verbatim>\<open>str.strip\<close> removes.
\<close>

definition is_numeral_space :: "char \<Rightarrow> bool" where
  "is_numeral_space c = (let n = (of_char c :: nat) in (9 \<le> n \<and> n \<le> 13) \<or> n = 32)"

definition strip_numeral :: "string \<Rightarrow> string" where
  "strip_numeral s = rev (dropWhile is_numeral_space (rev (dropWhile is_numeral_space s)))"

definition lower_char :: "char \<Rightarrow> char" where
  "lower_char c = (let n = (of_char c :: nat) in if 65 \<le> n \<and> n \<le> 90 then char_of (n + 32) else c)"

fun int_of_digits :: "int \<Rightarrow> string \<Rightarrow> int" where
  "int_of_digits acc [] = acc"
| "int_of_digits acc (c # cs) = int_of_digits (10 * acc + digit_val c) cs"

fun string_of_nat :: "nat \<Rightarrow> string" where
  "string_of_nat n =
     (if n < 10 then [char_of (48 + n)]
      else string_of_nat (n div 10) @ [char_of (48 + n mod 10)])"

declare string_of_nat.simps [simp del]

definition string_of_int :: "int \<Rightarrow> string" where
  "string_of_int i = (if i < 0 then CHR ''-'' # string_of_nat (nat (- i)) else string_of_nat (nat i))"

text \<open>
  PEP 515: \<^verbatim>\<open>int\<close> and \<^verbatim>\<open>float\<close> accept single underscores between digits and
  remove them; an underscore anywhere else is a \<^verbatim>\<open>ValueError\<close>. The first argument is the
  previous character.
\<close>

fun remove_underscores :: "char option \<Rightarrow> string \<Rightarrow> string option" where
  "remove_underscores prev [] = (if prev = Some CHR ''_'' then None else Some [])"
| "remove_underscores prev (c # cs) =
     (if c = CHR ''_'' then
        (case prev of
           None \<Rightarrow> None
         | Some p \<Rightarrow> if is_digit p then remove_underscores (Some c) cs else None)
      else if prev = Some CHR ''_'' \<and> \<not> is_digit c then None
      else map_option ((#) c) (remove_underscores (Some c) cs))"

definition split_sign :: "string \<Rightarrow> bool \<times> string" where
  "split_sign s =
     (case s of
        c # cs \<Rightarrow> if c = CHR ''-'' then (True, cs) else if c = CHR ''+'' then (False, cs) else (False, s)
      | [] \<Rightarrow> (False, s))"

subsection \<open>\<^verbatim>\<open>int(str)\<close>\<close>

definition py_int_of_string :: "string \<Rightarrow> py_error + int" where
  "py_int_of_string s =
     (case remove_underscores None (strip_numeral s) of
        None \<Rightarrow> Inl ValueError
      | Some t \<Rightarrow>
          (let (neg, ds) = split_sign t in
           if ds = [] \<or> \<not> list_all is_digit ds then Inl ValueError
           else Inr ((if neg then - 1 else 1) * int_of_digits 0 ds)))"

subsection \<open>\<^verbatim>\<open>float(str)\<close>: IEEE 754 binary64, round to nearest, ties to even\<close>

definition pow2 :: "int \<Rightarrow> rat" where
  "pow2 p = (if 0 \<le> p then 2 ^ nat p else 1 / 2 ^ nat (- p))"

definition pow10 :: "int \<Rightarrow> rat" where
  "pow10 p = (if 0 \<le> p then 10 ^ nat p else 1 / 10 ^ nat (- p))"

definition round_half_even :: "rat \<Rightarrow> int" where
  "round_half_even r =
     (let f = \<lfloor>r\<rfloor>; d = r - of_int f in
      if d < 1 / 2 then f else if 1 / 2 < d then f + 1 else if even f then f else f + 1)"

text \<open>
  \<open>binary_exponent q\<close> is the \<open>e\<close> with \<open>2^e \<le> q < 2^(e+1)\<close> for a positive \<open>q\<close>:
  the bit lengths of numerator and denominator give it up to one.
\<close>

definition binary_exponent :: "rat \<Rightarrow> int" where
  "binary_exponent q =
     (let (a, b) = quotient_of q; e0 = bitlen a - bitlen b in
      if q < pow2 e0 then e0 - 1 else e0)"

definition round_double_pos :: "rat \<Rightarrow> rat option" where
  "round_double_pos q =
     (let e = max (binary_exponent q) (- 1022);
          ulp = pow2 (e - 52);
          v = of_int (round_half_even (q / ulp)) * ulp
      in if pow2 1024 \<le> v then None else Some v)"

definition round_double :: "rat \<Rightarrow> pyfloat" where
  "round_double q =
     (if q = 0 then FFin 0
      else if 0 < q then (case round_double_pos q of None \<Rightarrow> FInf False | Some v \<Rightarrow> FFin v)
      else (case round_double_pos (- q) of None \<Rightarrow> FInf True | Some v \<Rightarrow> FFin (- v)))"

text \<open>The exponent part of a float literal: empty, or \<^verbatim>\<open>e\<close>/\<^verbatim>\<open>E\<close>, a sign, digits.\<close>

definition parse_exponent :: "string \<Rightarrow> int option" where
  "parse_exponent s =
     (case s of
        [] \<Rightarrow> Some 0
      | c # cs \<Rightarrow>
          if c = CHR ''e'' \<or> c = CHR ''E'' then
            (let (neg, ds) = split_sign cs in
             if ds = [] \<or> \<not> list_all is_digit ds then None
             else Some ((if neg then - 1 else 1) * int_of_digits 0 ds))
          else None)"

definition py_float_of_string :: "string \<Rightarrow> py_error + pyfloat" where
  "py_float_of_string s =
     (case remove_underscores None (strip_numeral s) of
        None \<Rightarrow> Inl ValueError
      | Some t \<Rightarrow>
          (let (neg, u) = split_sign t; l = map lower_char u in
           if l = ''inf'' \<or> l = ''infinity'' then Inr (FInf neg)
           else if l = ''nan'' then Inr FNaN
           else
             (let ip = takeWhile is_digit u; r1 = dropWhile is_digit u;
                  (fp, r2) = (case r1 of
                                [] \<Rightarrow> ([], r1)
                              | c # r \<Rightarrow> if c = CHR ''.'' then (takeWhile is_digit r, dropWhile is_digit r)
                                         else ([], r1))
              in if ip = [] \<and> fp = [] then Inl ValueError
                 else (case parse_exponent r2 of
                         None \<Rightarrow> Inl ValueError
                       | Some e \<Rightarrow>
                           Inr (round_double
                                  ((if neg then - 1 else 1) * of_int (int_of_digits 0 (ip @ fp))
                                     * pow10 (e - int (length fp))))))))"

subsection \<open>\<^verbatim>\<open>int(float)\<close>, \<^verbatim>\<open>str\<close>, \<^verbatim>\<open>pd.isna\<close>\<close>

definition py_int_of_float :: "pyfloat \<Rightarrow> py_error + int" where
  "py_int_of_float f =
     (case f of
        FNaN \<Rightarrow> Inl ValueError
      | FInf _ \<Rightarrow> Inl OverflowError
      | FFin q \<Rightarrow> Inr (if 0 \<le> q then \<lfloor>q\<rfloor> else \<lceil>q\<rceil>))"

definition py_int :: "pyval \<Rightarrow> py_error + int" where
  "py_int v =
     (case v of
        PNone \<Rightarrow> Inl TypeError
      | PFloat f \<Rightarrow> py_int_of_float f
      | PInt i \<Rightarrow> Inr i
      | PStr s \<Rightarrow> py_int_of_string s)"

text \<open>
  \<^verbatim>\<open>str(value)\<close>. The shortest round-tripping \<^verbatim>\<open>repr\<close> of a float is Python's, not
  this repository's: it is the parameter \<open>frepr\<close> wherever a float may be printed.
\<close>

definition py_str :: "(pyfloat \<Rightarrow> string) \<Rightarrow> pyval \<Rightarrow> string" where
  "py_str frepr v =
     (case v of
        PNone \<Rightarrow> ''None''
      | PFloat f \<Rightarrow> frepr f
      | PInt i \<Rightarrow> string_of_int i
      | PStr s \<Rightarrow> s)"

definition isna :: "pyval \<Rightarrow> bool" where
  "isna v = (v = PNone \<or> v = PFloat FNaN)"

section \<open>The cleaning stage: field coercion (\<^verbatim>\<open>data_cleaning.py\<close>)\<close>

text \<open>
  Each cleaner is a \<^verbatim>\<open>try\<close> body, which may raise, under a bare \<^verbatim>\<open>except\<close> that
  returns \<^verbatim>\<open>None\<close>. The body is the \<open>_body\<close> function; the cleaner keeps the sum type,
  so that "never raises" is a statement about it.
\<close>

definition clean_price_body :: "pyval \<Rightarrow> py_error + pyval" where
  "clean_price_body price =
     (if isna price \<or> price = PNone then Inr PNone
      else (case py_int price of Inl e \<Rightarrow> Inl e | Inr i \<Rightarrow> Inr (PInt i)))"

definition clean_price :: "pyval \<Rightarrow> py_error + pyval" where
  "clean_price price = (case clean_price_body price of Inl e \<Rightarrow> Inr PNone | Inr r \<Rightarrow> Inr r)"

definition remove_commas :: "string \<Rightarrow> string" where
  "remove_commas s = filter (\<lambda>c. c \<noteq> CHR '','') s"

definition clean_numeric_body :: "(pyfloat \<Rightarrow> string) \<Rightarrow> pyval \<Rightarrow> string \<Rightarrow> py_error + pyval" where
  "clean_numeric_body frepr value convert_to =
     (if isna value \<or> value = PNone \<or> value = PStr [] then Inr PNone
      else if convert_to = ''int'' then
        (case py_float_of_string (remove_commas (py_str frepr value)) of
           Inl e \<Rightarrow> Inl e
         | Inr f \<Rightarrow> (case py_int_of_float f of Inl e \<Rightarrow> Inl e | Inr i \<Rightarrow> Inr (PInt i)))
      else if convert_to = ''float'' then
        (case py_float_of_string (remove_commas (py_str frepr value)) of
           Inl e \<Rightarrow> Inl e
         | Inr f \<Rightarrow> Inr (PFloat f))
      else Inr value)"

definition clean_numeric :: "(pyfloat \<Rightarrow> string) \<Rightarrow> pyval \<Rightarrow> string \<Rightarrow> py_error + pyval" where
  "clean_numeric frepr value convert_to =
     (case clean_numeric_body frepr value convert_to of Inl e \<Rightarrow> Inr PNone | Inr r \<Rightarrow> Inr r)"

definition clean_string_body :: "(pyfloat \<Rightarrow> string) \<Rightarrow> pyval \<Rightarrow> py_error + pyval" where
  "clean_string_body frepr value =
     (if isna value \<or> value = PNone \<or> value = PStr [] then Inr PNone
      else Inr (PStr (strip (py_str frepr value))))"

definition clean_string :: "(pyfloat \<Rightarrow> string) \<Rightarrow> pyval \<Rightarrow> py_error + pyval" where
  "clean_string frepr value =
     (case clean_string_body frepr value of Inl e \<Rightarrow> Inr PNone | Inr r \<Rightarrow> Inr r)"

section \<open>Data frames and batch cleaning (\<^verbatim>\<open>data_cleaning.py\<close>)\<close>

text \<open>
  \<^verbatim>\<open>pd.DataFrame(records)\<close>: the columns are the union of the records' keys in order of
  first appearance, and a record lacking a key holds NaN there. A column is structurally
  missing when no record of the batch has the key. The dtype inference of pandas (an integer
  column holding a NaN becomes a float column) is not modelled: cells keep the stored value.
\<close>

record dataframe =
  columns :: "string list"
  rows :: "doc list"

definition unique_list :: "'a list \<Rightarrow> 'a list" where
  "unique_list xs = rev (remdups (rev xs))"

definition DataFrame :: "doc list \<Rightarrow> dataframe" where
  "DataFrame records =
     (let cols = unique_list (concat (map (map fst) records)) in
      \<lparr>columns = cols,
       rows = map (\<lambda>d. map (\<lambda>c. (c, case map_of d c of None \<Rightarrow> PFloat FNaN | Some v \<Rightarrow> v)) cols)
                  records\<rparr>)"

definition and_then :: "'e + 'a \<Rightarrow> ('a \<Rightarrow> 'e + 'b) \<Rightarrow> 'e + 'b" where
  "and_then m f = (case m of Inl e \<Rightarrow> Inl e | Inr x \<Rightarrow> f x)"

text \<open>\<^verbatim>\<open>df[col] = df[col].apply(f)\<close>: \<open>f\<close> on every cell of the column, top to bottom.\<close>

fun rows_apply :: "string \<Rightarrow> (pyval \<Rightarrow> py_error + pyval) \<Rightarrow> doc list \<Rightarrow> py_error + doc list" where
  "rows_apply col f [] = Inr []"
| "rows_apply col f (r # rs) =
     (case map_of r col of
        None \<Rightarrow> Inl KeyError
      | Some v \<Rightarrow>
          and_then (f v) (\<lambda>w.
          and_then (rows_apply col f rs) (\<lambda>rs'. Inr (AList.update col w r # rs'))))"

definition df_apply :: "string \<Rightarrow> (pyval \<Rightarrow> py_error + pyval) \<Rightarrow> dataframe \<Rightarrow> py_error + dataframe" where
  "df_apply col f df =
     (if col \<notin> set (columns df) then Inl KeyError
      else and_then (rows_apply col f (rows df)) (\<lambda>rs. Inr (df\<lparr>rows := rs\<rparr>)))"

fun apply_columns :: "string list \<Rightarrow> (pyval \<Rightarrow> py_error + pyval) \<Rightarrow> dataframe \<Rightarrow> py_error + dataframe" where
  "apply_columns [] f df = Inr df"
| "apply_columns (col # cols) f df = and_then (df_apply col f df) (apply_columns cols f)"

definition df_column :: "string \<Rightarrow> dataframe \<Rightarrow> py_error + pyval list" where
  "df_column col df =
     (if col \<notin> set (columns df) then Inl KeyError
      else Inr (map (\<lambda>r. case map_of r col of None \<Rightarrow> PFloat FNaN | Some v \<Rightarrow> v) (rows df)))"

definition listing_required_columns :: "string list" where
  "listing_required_columns =
     [''judul_iklan'', ''harga'', ''kecamatan'', ''kabupaten_kota'', ''provinsi'',
      ''terakhir_diperbarui'', ''agen'', ''link_rumah123'', ''kamar_tidur'',
      ''kamar_mandi'', ''luas_tanah'', ''luas_bangunan'', ''carport'',
      ''sertifikat'', ''daya_listrik'', ''kamar_tidur_pembantu'',
      ''kamar_mandi_pembantu'', ''dapur'', ''ruang_makan'', ''ruang_tamu'',
      ''kondisi_perabotan'', ''material_bangunan'', ''material_lantai'',
      ''garasi'', ''jumlah_lantai'', ''konsep_dan_gaya_rumah'', ''pemandangan'',
      ''terjangkau_internet'', ''lebar_jalan'', ''tahun_dibangun'',
      ''tahun_direnovasi'', ''sumber_air'', ''hook'', ''kondisi_properti'']"

definition numeric_int_columns :: "string list" where
  "numeric_int_columns =
     [''kamar_tidur'', ''kamar_mandi'', ''carport'', ''daya_listrik'',
      ''kamar_tidur_pembantu'', ''kamar_mandi_pembantu'', ''dapur'',
      ''garasi'', ''jumlah_lantai'', ''tahun_dibangun'', ''tahun_direnovasi'']"

definition numeric_float_columns :: "string list" where
  "numeric_float_columns = [''luas_tanah'', ''luas_bangunan'']"

definition string_columns :: "string list" where
  "string_columns =
     [''kecamatan'', ''kabupaten_kota'', ''provinsi'', ''terakhir_diperbarui'',
      ''agen'', ''link_rumah123'', ''sertifikat'', ''ruang_makan'', ''ruang_tamu'',
      ''kondisi_perabotan'', ''material_bangunan'', ''material_lantai'',
      ''konsep_dan_gaya_rumah'', ''pemandangan'', ''terjangkau_internet'',
      ''lebar_jalan'', ''sumber_air'', ''hook'', ''kondisi_properti'']"

text \<open>
  The loop over the required columns raises \<^verbatim>\<open>ValueError\<close> at the first one that is not
  a column of the frame, before any cell is touched; the handler logs and re-raises.
\<close>

definition clean_rumah123_data :: "(pyfloat \<Rightarrow> string) \<Rightarrow> dataframe \<Rightarrow> py_error + dataframe" where
  "clean_rumah123_data frepr df =
     (if \<exists>col \<in> set listing_required_columns. col \<notin> set (columns df) then Inl ValueError
      else
        and_then (df_apply ''harga'' clean_price df) (\<lambda>df1.
        and_then (apply_columns numeric_int_columns (\<lambda>x. clean_numeric frepr x ''int'') df1) (\<lambda>df2.
        and_then (apply_columns numeric_float_columns (\<lambda>x. clean_numeric frepr x ''float'') df2) (\<lambda>df3.
        apply_columns string_columns (clean_string frepr) df3))))"

definition facility_required_columns :: "string list" where
  "facility_required_columns =
     [''kecamatan'', ''jumlah_fasilitas_pendidikan'',
      ''jumlah_fasilitas_kesehatan'', ''jumlah_fasilitas_perbelanjaan'',
      ''jumlah_fasilitas_transportasi'', ''jumlah_fasilitas_rekreasi'']"

definition clean_osm_facilities_data :: "(pyfloat \<Rightarrow> string) \<Rightarrow> dataframe \<Rightarrow> py_error + dataframe" where
  "clean_osm_facilities_data frepr df =
     (if \<exists>col \<in> set facility_required_columns. col \<notin> set (columns df) then Inl ValueError
      else
        (let facility_columns = filter (\<lambda>col. col \<noteq> ''kecamatan'') facility_required_columns in
         and_then (apply_columns facility_columns (\<lambda>x. clean_numeric frepr x ''int'') df) (\<lambda>df1.
         df_apply ''kecamatan'' (clean_string frepr) df1)))"

section \<open>The document store\<close>

text \<open>
  The collections of database \<^verbatim>\<open>rumah123\<close>. \<^verbatim>\<open>scraping_progress\<close> holds at most the one
  document \<^verbatim>\<open>current_progress\<close>, with its two fields. The \<^verbatim>\<open>_id\<close> that the store assigns
  to inserted documents is not modelled.

  Every call to the store may fail (the store is unreachable, a write is rejected). Which
  calls fail is the run's environment: a predicate on the operations a run performs. A
  failed write changes nothing.
\<close>

record progress =
  current_page :: int
  provinces :: "(string \<times> int) list"

record db =
  raw_listings :: "doc list"
  facilities :: "doc list"
  cleaned_listings :: "doc list"
  cleaned_facilities :: "doc list"
  scraping_progress :: "progress option"

datatype db_op =
  FindProgress | InsertProgress | DistinctTitles | InsertRawListings string
  | UpdateProgress string
  | AggregateKecamatans | FindFacility pyval | UpsertFacility pyval
  | FindRawListings | InsertCleanedListings | FindFacilities | InsertCleanedFacilities
  | SetProgress

type_synonym faults = "db_op \<Rightarrow> bool"

section \<open>The cleaning stage: one page (\<^verbatim>\<open>DataCleaner\<close>)\<close>


text \<open>
  Step 3 of \<^verbatim>\<open>process_current_page\<close>: the loop over the keys of \<^verbatim>\<open>progress["provinces"]\<close>
  moves every cursor that equals the current page.
\<close>

fun advance_loop :: "string list \<Rightarrow> int \<Rightarrow> (string \<times> int) list \<Rightarrow> (string \<times> int) list" where
  "advance_loop [] cp ps = ps"
| "advance_loop (province # rest) cp ps =
     advance_loop rest cp
       (if map_of ps province = Some cp then AList.update province (cp + 1) ps else ps)"

definition advance_progress :: "progress \<Rightarrow> progress" where
  "advance_progress p =
     \<lparr>current_page = current_page p + 1,
      provinces = advance_loop (map fst (provinces p)) (current_page p) (provinces p)\<rparr>"

text \<open>\<^verbatim>\<open>{"kecamatan": {"$in": values}}\<close>: a null in the list also matches a missing field.\<close>

definition kecamatan_in :: "pyval list \<Rightarrow> doc \<Rightarrow> bool" where
  "kecamatan_in values d =
     (case map_of d ''kecamatan'' of None \<Rightarrow> PNone \<in> set values | Some v \<Rightarrow> v \<in> set values)"

text \<open>
  \<^verbatim>\<open>process_current_page\<close> returns the store as the call leaves it and the boolean the
  Python returns. Every exception inside the \<^verbatim>\<open>try\<close> ends in \<^verbatim>\<open>return False\<close>, with
  the writes made so far in place.
\<close>

definition process_facilities :: "(pyfloat \<Rightarrow> string) \<Rightarrow> faults \<Rightarrow> db \<Rightarrow> dataframe \<Rightarrow> py_error + db" where
  "process_facilities frepr faults d cleaned_listings_df =
     and_then (df_column ''kecamatan'' cleaned_listings_df) (\<lambda>col.
       (let unique_kecamatans = unique_list col in
        if faults FindFacilities then Inl PyMongoError
        else
          (let facilities_data = filter (kecamatan_in unique_kecamatans) (facilities d) in
           if facilities_data \<noteq> [] then
             and_then (clean_osm_facilities_data frepr (DataFrame facilities_data)) (\<lambda>cleaned_facilities_df.
               if faults InsertCleanedFacilities then Inl PyMongoError
               else Inr (d\<lparr>cleaned_facilities := cleaned_facilities d @ rows cleaned_facilities_df\<rparr>))
           else Inr d)))"

definition process_current_page :: "(pyfloat \<Rightarrow> string) \<Rightarrow> faults \<Rightarrow> db \<Rightarrow> progress \<Rightarrow> db \<times> bool" where
  "process_current_page frepr faults d p =
     (if faults FindRawListings then (d, False)
      else
        (let raw = filter (\<lambda>r. map_of r ''page'' = Some (PInt (current_page p))) (raw_listings d) in
         if raw = [] then (d, False)
         else
           (case clean_rumah123_data frepr (DataFrame raw) of
              Inl e \<Rightarrow> (d, False)
            | Inr cleaned_listings_df \<Rightarrow>
                (let cleaned_records = rows cleaned_listings_df in
                 if cleaned_records \<noteq> [] \<and> faults InsertCleanedListings then (d, False)
                 else
                   (let d1 = (if cleaned_records \<noteq> []
                              then d\<lparr>cleaned_listings := cleaned_listings d @ cleaned_records\<rparr>
                              else d)
                    in case process_facilities frepr faults d1 cleaned_listings_df of
                         Inl e \<Rightarrow> (d1, False)
                       | Inr d2 \<Rightarrow>
                           if faults SetProgress then (d2, False)
                           else (d2\<lparr>scraping_progress :=
                                       map_option (\<lambda>_. advance_progress p) (scraping_progress d2)\<rparr>,
                                 True))))))"


section \<open>The outside world of a run\<close>

text \<open>
  What a run receives from outside: the listing site (an index page is a list of cards,
  each with the text of its \<^verbatim>\<open>h2\<close> and the \<^verbatim>\<open>href\<close> of its link, when present; a detail
  page is a parsed document, seen through the texts of the elements a selector matches),
  the geodata API (the answer to the \<open>n\<close>-th request of the run), the store's failures,
  the clock, and the \<^verbatim>\<open>repr\<close> of floats. A request that raises
  \<^verbatim>\<open>requests.RequestException\<close>, after the session's own retries, is a failed response.
\<close>

record card =
  title_elem :: "string option"
  link_elem :: "string option"

datatype search_response = SearchFailed | SearchCards "card list"

type_synonym soup = "string \<Rightarrow> string list"

datatype detail_response = DetailFailed | DetailSoup soup

datatype json_body = BodyError | NoElements | Elements nat

datatype http_result = ConnectionFailed | Response int "string option" json_body

record world =
  store_faults :: faults
  site_search :: "string \<Rightarrow> search_response"
  site_detail :: "string \<Rightarrow> detail_response"
  overpass :: "nat \<Rightarrow> string \<Rightarrow> http_result"
  clock :: string
  float_repr :: "pyfloat \<Rightarrow> string"

section \<open>The listing crawler (\<^verbatim>\<open>Rumah123Scraper\<close>)\<close>

definition scraper_provinces :: "string list" where
  "scraper_provinces =
     [''dki-jakarta'', ''jawa-barat'', ''banten'', ''jawa-timur'', ''jawa-tengah'',
      ''bali'', ''daerah-istimewa-yogyakarta'', ''sumatera-utara'', ''kepulauan-riau'',
      ''sulawesi-selatan'', ''kalimantan-timur'', ''riau'', ''lampung'', ''sumatera-selatan'',
      ''kalimantan-barat'', ''sulawesi-utara'', ''nusa-tenggara-barat'', ''nusa-tenggara-timur'',
      ''sumatera-barat'', ''kalimantan-selatan'', ''jambi'', ''kepulauan-bangka-belitung'',
      ''kalimantan-tengah'', ''papua'', ''aceh'', ''bengkulu'', ''papua-barat'', ''sulawesi-tengah'',
      ''sulawesi-tenggara'', ''gorontalo'', ''kalimantan-utara'', ''maluku-utara'',
      ''sulawesi-barat'', ''maluku'']"

definition scraper_clean_price :: "string option \<Rightarrow> pyval" where
  "scraper_clean_price price_text =
     (case price_text of
        None \<Rightarrow> PNone
      | Some t \<Rightarrow>
          if t = [] then PNone
          else
            (let clean_text = filter is_digit t in
             if clean_text = [] then PNone
             else (case py_int_of_string clean_text of Inl e \<Rightarrow> PNone | Inr i \<Rightarrow> PInt i)))"

text \<open>
  \<^verbatim>\<open>set(raw_collection.distinct("judul_iklan"))\<close>; the empty set when the store fails.
  The set is the list of its members.
\<close>

definition fetch_existing_titles :: "world \<Rightarrow> db \<Rightarrow> pyval list" where
  "fetch_existing_titles w d =
     (if store_faults w DistinctTitles then []
      else remdups (List.map_filter (\<lambda>r. map_of r ''judul_iklan'') (raw_listings d)))"

fun collect_cards :: "pyval list \<Rightarrow> card list \<Rightarrow> (string \<times> string) list" where
  "collect_cards existing_titles [] = []"
| "collect_cards existing_titles (c # cs) =
     (case title_elem c of
        None \<Rightarrow> collect_cards existing_titles cs
      | Some t \<Rightarrow>
          (case link_elem c of
             None \<Rightarrow> collect_cards existing_titles cs
           | Some l \<Rightarrow>
               (let title = strip t in
                if title \<noteq> [] \<and> PStr title \<notin> set existing_titles
                then (title, ''https://www.rumah123.com'' @ l) # collect_cards existing_titles cs
                else collect_cards existing_titles cs)))"

text \<open>The houses to scrape: pairs of \<^verbatim>\<open>judul_iklan\<close> and \<^verbatim>\<open>link\<close>.\<close>

definition scrape_search_page :: "world \<Rightarrow> string \<Rightarrow> pyval list \<Rightarrow> (string \<times> string) list" where
  "scrape_search_page w url existing_titles =
     (case site_search w url of
        SearchFailed \<Rightarrow> []
      | SearchCards house_cards \<Rightarrow>
          if house_cards = [] then [] else collect_cards existing_titles house_cards)"

text \<open>\<^verbatim>\<open>s.split(sep)\<close> for a non-empty separator; the second argument is the piece being read, reversed.\<close>

function split_at :: "string \<Rightarrow> string \<Rightarrow> string \<Rightarrow> string list" where
  "split_at sep cur [] = [rev cur]"
| "split_at sep cur (c # cs) =
     (if sep \<noteq> [] \<and> take (length sep) (c # cs) = sep
      then rev cur # split_at sep [] (drop (length sep - 1) cs)
      else split_at sep (c # cur) cs)"
  by pat_completeness auto
termination
  by (relation "measure (\<lambda>(sep, cur, s). length s)") auto

definition py_split :: "string \<Rightarrow> string \<Rightarrow> string list" where
  "py_split sep s = split_at sep [] s"

definition get_value :: "soup \<Rightarrow> string \<Rightarrow> string option" where
  "get_value page selector =
     (case page selector of [] \<Rightarrow> None | element # _ \<Rightarrow> Some (strip element))"

definition opt_val :: "string option \<Rightarrow> pyval" where
  "opt_val t = (case t of None \<Rightarrow> PNone | Some s \<Rightarrow> PStr s)"

definition detail_labels :: "(string \<times> string) list" where
  "detail_labels =
     [(''kamar_tidur'', ''Kamar Tidur''), (''kamar_mandi'', ''Kamar Mandi''),
      (''luas_tanah'', ''Luas Tanah''), (''luas_bangunan'', ''Luas Bangunan''),
      (''carport'', ''Carport''), (''sertifikat'', ''Sertifikat''),
      (''daya_listrik'', ''Daya Listrik''), (''kamar_tidur_pembantu'', ''Kamar Tidur Pembantu''),
      (''kamar_mandi_pembantu'', ''Kamar Mandi Pembantu''), (''dapur'', ''Dapur''),
      (''ruang_makan'', ''Ruang Makan''), (''ruang_tamu'', ''Ruang Tamu''),
      (''kondisi_perabotan'', ''Kondisi Perabotan''), (''material_bangunan'', ''Material Bangunan''),
      (''material_lantai'', ''Material Lantai''), (''garasi'', ''Garasi''),
      (''jumlah_lantai'', ''Jumlah Lantai''), (''konsep_dan_gaya_rumah'', ''Konsep dan Gaya Rumah''),
      (''pemandangan'', ''Pemandangan''), (''terjangkau_internet'', ''Terjangkau Internet''),
      (''lebar_jalan'', ''Lebar Jalan''), (''tahun_dibangun'', ''Tahun Dibangun''),
      (''tahun_direnovasi'', ''Tahun Direnovasi''), (''sumber_air'', ''Sumber Air''),
      (''hook'', ''Hook''), (''kondisi_properti'', ''Kondisi Properti'')]"

definition label_selector :: "string \<Rightarrow> string" where
  "label_selector label = ''p:contains('' @ [CHR 0x27] @ label @ [CHR 0x27] @ '') + p''"

text \<open>
  \<^verbatim>\<open>scrape_house_details\<close>: the empty dict when the request fails; \<^verbatim>\<open>IndexError\<close>, which
  nothing catches, when the update line has no second word.
\<close>

definition scrape_house_details :: "world \<Rightarrow> string \<Rightarrow> string \<Rightarrow> py_error + doc" where
  "scrape_house_details w url province =
     (case site_detail w url of
        DetailFailed \<Rightarrow> Inr []
      | DetailSoup page \<Rightarrow>
          (let location_text = get_value page ''p.text-xs.text-gray-500.mb-2'';
               location_parts = (case location_text of
                                   None \<Rightarrow> []
                                 | Some t \<Rightarrow> if t \<noteq> [] then py_split '','' t else []);
               kecamatan = (case location_parts of [] \<Rightarrow> PNone | first # _ \<Rightarrow> PStr (strip first));
               kabupaten = (if 1 < length location_parts then PStr (strip (last location_parts)) else PNone);
               update_info = get_value page ''p.text-3xs.text-gray-400.mb-4''
           in
             and_then
               (case update_info of
                  None \<Rightarrow> Inr (PNone, PNone)
                | Some t \<Rightarrow>
                    if t \<noteq> [] then
                      (case py_split ''oleh'' t of
                         [] \<Rightarrow> Inr (PNone, PNone)
                       | dated # named \<Rightarrow>
                           (case py_split '' '' dated of
                              _ # word # _ \<Rightarrow>
                                Inr (PStr word,
                                     case named of [] \<Rightarrow> PNone | name # _ \<Rightarrow> PStr (strip name))
                            | _ \<Rightarrow> Inl IndexError))
                    else Inr (PNone, PNone))
               (\<lambda>(update_date, agent).
                  Inr ([(''judul_iklan'', opt_val (get_value page ''h1'')),
                        (''harga'', scraper_clean_price (get_value page ''span.text-primary.font-bold'')),
                        (''kecamatan'', kecamatan),
                        (''kabupaten_kota'', kabupaten),
                        (''provinsi'', PStr province),
                        (''terakhir_diperbarui'', update_date),
                        (''agen'', agent),
                        (''link_rumah123'', PStr url)]
                       @ map (\<lambda>(field, label). (field, opt_val (get_value page (label_selector label))))
                           detail_labels
                       @ [(''waktu_scraping'', PStr (clock w))]))))"

text \<open>
  \<^verbatim>\<open>store_to_mongodb\<close> adds the metadata and inserts; \<^verbatim>\<open>False\<close> for no data or a failed
  insert. The insertion time is held as the clock's text.
\<close>

definition store_to_mongodb :: "world \<Rightarrow> doc list \<Rightarrow> string \<Rightarrow> int \<Rightarrow> db \<Rightarrow> db \<times> bool" where
  "store_to_mongodb w data province page d =
     (if data = [] then (d, False)
      else
        (let stamped = map (\<lambda>record.
                              AList.update ''inserted_at'' (PStr (clock w))
                                (AList.update ''page'' (PInt page)
                                   (AList.update ''province'' (PStr province) record))) data
         in if store_faults w (InsertRawListings province) then (d, False)
            else (d\<lparr>raw_listings := raw_listings d @ stamped\<rparr>, True)))"

definition scraper_load_progress :: "world \<Rightarrow> db \<Rightarrow> py_error + db \<times> progress" where
  "scraper_load_progress w d =
     (if store_faults w FindProgress then Inl PyMongoError
      else
        (case scraping_progress d of
           Some p \<Rightarrow> Inr (d, p)
         | None \<Rightarrow>
             (let p = \<lparr>current_page = 1, provinces = map (\<lambda>province. (province, 1)) scraper_provinces\<rparr>
              in if store_faults w InsertProgress then Inl PyMongoError
                 else Inr (d\<lparr>scraping_progress := Some p\<rparr>, p))))"

text \<open>
  \<^verbatim>\<open>update_progress\<close>: one \<^verbatim>\<open>$set\<close> of \<^verbatim>\<open>provinces.<province>\<close> and \<^verbatim>\<open>current_page\<close>, both
  to \<open>page\<close>; a failure is logged and not raised. Province names hold no dot.
\<close>

definition update_progress :: "world \<Rightarrow> string \<Rightarrow> int \<Rightarrow> db \<Rightarrow> db" where
  "update_progress w province page d =
     (if store_faults w (UpdateProgress province) then d
      else d\<lparr>scraping_progress :=
               map_option (\<lambda>p. \<lparr>current_page = page,
                                 provinces = AList.update province page (provinces p)\<rparr>)
                 (scraping_progress d)\<rparr>)"

definition search_url :: "string \<Rightarrow> int \<Rightarrow> string" where
  "search_url province page =
     ''https://www.rumah123.com/jual/'' @ province @ ''/rumah/?page='' @ string_of_int page"

fun collect_details :: "world \<Rightarrow> string \<Rightarrow> (string \<times> string) list \<Rightarrow> py_error + doc list" where
  "collect_details w province [] = Inr []"
| "collect_details w province (house # houses) =
     and_then (scrape_house_details w (snd house) province) (\<lambda>details.
     and_then (collect_details w province houses) (\<lambda>house_details.
       Inr (if details \<noteq> [] then details # house_details else house_details)))"

text \<open>
  The loop of \<^verbatim>\<open>run\<close> over \<^verbatim>\<open>progress["provinces"].items()\<close>. The result is the store
  as the loop leaves it and the exception that ended it, if one did.
\<close>

fun run_provinces :: "world \<Rightarrow> pyval list \<Rightarrow> int \<Rightarrow> (string \<times> int) list \<Rightarrow> db \<Rightarrow> db \<times> py_error option" where
  "run_provinces w existing_titles cp [] d = (d, None)"
| "run_provinces w existing_titles cp ((province, page) # rest) d =
     (if page \<noteq> cp then run_provinces w existing_titles cp rest d
      else
        (let houses = scrape_search_page w (search_url province page) existing_titles in
         if houses = [] then run_provinces w existing_titles cp rest d
         else
           (case collect_details w province houses of
              Inl e \<Rightarrow> (d, Some e)
            | Inr house_details \<Rightarrow>
                if house_details \<noteq> [] then
                  (case store_to_mongodb w house_details province page d of
                     (d1, stored) \<Rightarrow>
                       if stored
                       then run_provinces w existing_titles cp rest (update_progress w province page d1)
                       else run_provinces w existing_titles cp rest d1)
                else run_provinces w existing_titles cp rest d)))"


definition scraper_run :: "world \<Rightarrow> db \<Rightarrow> db \<times> py_error option" where
  "scraper_run w d =
     (case scraper_load_progress w d of
        Inl e \<Rightarrow> (d, Some e)
      | Inr (d0, p) \<Rightarrow>
          run_provinces w (fetch_existing_titles w d0) (current_page p) (provinces p) d0)"

section \<open>The enrichment client (\<^verbatim>\<open>OSMFacilitiesFetcher\<close>)\<close>

definition facility_queries :: "(string \<times> string list) list" where
  \<open>facility_queries =
     [(''jumlah_fasilitas_pendidikan'',
         [''amenity~"school|university|college|kindergarten"'']),
      (''jumlah_fasilitas_kesehatan'',
         [''amenity~"hospital|clinic|doctors|dentist|pharmacy"'']),
      (''jumlah_fasilitas_perbelanjaan'',
         [''shop~"supermarket|mall|department_store|convenience"'',
          ''amenity~"marketplace|shopping_mall"'']),
      (''jumlah_fasilitas_transportasi'',
         [''amenity~"bus_station|taxi|ferry_terminal"'',
          ''aeroway~"aerodrome|terminal"'',
          ''railway~"station|halt"'']),
      (''jumlah_fasilitas_rekreasi'',
         [''leisure~"park|sports_centre|fitness_centre|swimming_pool"'',
          ''amenity~"park|theatre|cinema"''])]\<close>

definition newline :: string where
  "newline = [CHR 0x0A]"

definition build_query :: "world \<Rightarrow> pyval \<Rightarrow> string \<Rightarrow> string" where
  \<open>build_query w kecamatan facility_filter =
     strip (newline
       @ ''        [out:json][timeout:60];'' @ newline
       @ ''        area["name"="Indonesia"]->.country;'' @ newline
       @ ''        area["admin_level"="6"]["name"="'' @ py_str (float_repr w) kecamatan
           @ ''"](area.country)->.searchArea;'' @ newline
       @ ''        ('' @ newline
       @ ''          nwr['' @ facility_filter @ ''](area.searchArea);'' @ newline
       @ ''        );'' @ newline
       @ ''        out count;'' @ newline
       @ ''        '')\<close>

text \<open>
  What the client does to the outside, in order: it sleeps and it posts a query.
\<close>

datatype event = Sleep int | Post string

text \<open>The state of one \<^verbatim>\<open>get_facilities_count\<close> call, and of the run around it.\<close>

record fetch_state =
  retry_count :: int
  calls :: nat
  trace :: "event list"

text \<open>\<^verbatim>\<open>int(response.headers.get('Retry-After', 60))\<close>\<close>

definition retry_after_seconds :: "string option \<Rightarrow> py_error + int" where
  "retry_after_seconds header = (case header of None \<Rightarrow> Inr 60 | Some h \<Rightarrow> py_int_of_string h)"

text \<open>
  The \<^verbatim>\<open>while retry_count < max_retries\<close> loop for one filter expression. It returns the
  state and the count to add: \<open>Some n\<close> when the loop ended at \<^verbatim>\<open>break\<close>, \<open>None\<close> when the
  condition ended it. A negative \<^verbatim>\<open>Retry-After\<close> makes \<^verbatim>\<open>time.sleep\<close> raise, into the
  handler (one increment, five seconds).
\<close>

function fetch_filter :: "world \<Rightarrow> string \<Rightarrow> int \<Rightarrow> fetch_state \<Rightarrow> nat option \<times> fetch_state" where
  "fetch_filter w query max_retries st =
     (if retry_count st < max_retries then
        (let posted = st\<lparr>calls := calls st + 1, trace := trace st @ [Sleep 2, Post query]\<rparr>;
             failed = posted\<lparr>retry_count := retry_count st + 1, trace := trace posted @ [Sleep 5]\<rparr>
         in case overpass w (calls st) query of
              ConnectionFailed \<Rightarrow> fetch_filter w query max_retries failed
            | Response status_code retry_after body \<Rightarrow>
                if status_code = 200 then
                  (case body of
                     BodyError \<Rightarrow> fetch_filter w query max_retries failed
                   | NoElements \<Rightarrow> (Some 0, posted)
                   | Elements n \<Rightarrow> (Some n, posted))
                else if status_code = 429 then
                  (case retry_after_seconds retry_after of
                     Inl e \<Rightarrow> fetch_filter w query max_retries failed
                   | Inr wait_time \<Rightarrow>
                       if wait_time < 0 then fetch_filter w query max_retries failed
                       else fetch_filter w query max_retries
                              (posted\<lparr>retry_count := retry_count st + 1,
                                      trace := trace posted @ [Sleep wait_time]\<rparr>))
                else fetch_filter w query max_retries failed)
      else (None, st))"
  by pat_completeness auto
termination
  by (relation "measure (\<lambda>(w, query, max_retries, st). nat (max_retries - retry_count st))") auto

declare fetch_filter.simps [simp del]

text \<open>
  The loop over the filter expressions of one category: \<open>None\<close> is \<^verbatim>\<open>return None\<close>
  (\<^verbatim>\<open>retry_count >= max_retries\<close> after a \<^verbatim>\<open>while\<close>), otherwise the category's total.
\<close>

fun fetch_filters :: "world \<Rightarrow> pyval \<Rightarrow> int \<Rightarrow> string list \<Rightarrow> int \<Rightarrow> fetch_state \<Rightarrow> int option \<times> fetch_state" where
  "fetch_filters w kecamatan max_retries [] total_count st = (Some total_count, st)"
| "fetch_filters w kecamatan max_retries (facility_filter # rest) total_count st =
     (case fetch_filter w (build_query w kecamatan facility_filter) max_retries st of
        (found, st1) \<Rightarrow>
          if retry_count st1 \<ge> max_retries then (None, st1)
          else fetch_filters w kecamatan max_retries rest
                 (total_count + (case found of None \<Rightarrow> 0 | Some n \<Rightarrow> int n)) st1)"

fun fetch_categories :: "world \<Rightarrow> pyval \<Rightarrow> int \<Rightarrow> (string \<times> string list) list \<Rightarrow> doc \<Rightarrow> fetch_state \<Rightarrow> doc option \<times> fetch_state" where
  "fetch_categories w kecamatan max_retries [] results st = (Some results, st)"
| "fetch_categories w kecamatan max_retries ((category, facility_filters) # rest) results st =
     (case fetch_filters w kecamatan max_retries facility_filters 0 st of
        (None, st1) \<Rightarrow> (None, st1)
      | (Some total_count, st1) \<Rightarrow>
          fetch_categories w kecamatan max_retries rest
            (AList.update category (PInt total_count) results) st1)"

text \<open>
  \<^verbatim>\<open>get_facilities_count\<close>: \<^verbatim>\<open>retry_count\<close> starts at 0 once, before both loops. The
  number of requests made and the trace continue from the caller's.
\<close>

definition get_facilities_count :: "world \<Rightarrow> pyval \<Rightarrow> int \<Rightarrow> nat \<times> event list \<Rightarrow> doc option \<times> nat \<times> event list" where
  "get_facilities_count w kecamatan max_retries io =
     (case fetch_categories w kecamatan max_retries facility_queries []
             \<lparr>retry_count = 0, calls = fst io, trace = snd io\<rparr> of
        (None, st) \<Rightarrow> (None, calls st, trace st)
      | (Some results, st) \<Rightarrow>
          (Some (AList.update ''status'' (PStr ''success'')
                  (AList.update ''timestamp'' (PStr (clock w))
                     (AList.update ''kecamatan'' kecamatan results))),
           calls st, trace st))"

text \<open>
  The \<^verbatim>\<open>$match\<close>/\<^verbatim>\<open>$group\<close> pipeline: the distinct \<^verbatim>\<open>kecamatan\<close> of the raw listings of the
  current page whose field exists and is not null; the empty set when the store fails.
  The Python set is iterated in an order the language leaves open; here it is the order
  of first appearance.
\<close>

definition get_current_kecamatans :: "world \<Rightarrow> db \<Rightarrow> progress \<Rightarrow> pyval list" where
  "get_current_kecamatans w d p =
     (if store_faults w AggregateKecamatans then []
      else unique_list
             (List.map_filter
                (\<lambda>r. if map_of r ''page'' = Some (PInt (current_page p))
                     then (case map_of r ''kecamatan'' of
                             None \<Rightarrow> None
                           | Some k \<Rightarrow> if k \<noteq> PNone then Some k else None)
                     else None)
                (raw_listings d)))"

text \<open>
  The filter \<^verbatim>\<open>{"kecamatan": kecamatan}\<close>: the field equals the value; a null value also
  matches a document without the field.
\<close>

definition kecamatan_is :: "pyval \<Rightarrow> doc \<Rightarrow> bool" where
  "kecamatan_is kecamatan f =
     (case map_of f ''kecamatan'' of None \<Rightarrow> kecamatan = PNone | Some v \<Rightarrow> v = kecamatan)"

definition facility_exists :: "world \<Rightarrow> db \<Rightarrow> pyval \<Rightarrow> py_error + bool" where
  "facility_exists w d kecamatan =
     (if store_faults w (FindFacility kecamatan) then Inl PyMongoError
      else Inr (\<exists>f \<in> set (facilities d). kecamatan_is kecamatan f))"

text \<open>
  \<^verbatim>\<open>update_one({"kecamatan": k}, {"$set": record}, upsert=True)\<close>: the first document of
  the region takes the fields of the record; without one, a new document is inserted.
\<close>

fun upsert :: "pyval \<Rightarrow> doc \<Rightarrow> doc list \<Rightarrow> doc list" where
  "upsert k record [] = [record]"
| "upsert k record (f # fs) =
     (if kecamatan_is k f then AList.merge f record # fs
      else f # upsert k record fs)"

definition save_facilities_to_mongodb :: "world \<Rightarrow> doc \<Rightarrow> db \<Rightarrow> db \<times> bool" where
  "save_facilities_to_mongodb w record d =
     (case map_of record ''kecamatan'' of
        None \<Rightarrow> (d, False)
      | Some kecamatan \<Rightarrow>
          (let stamped = AList.update ''updated_at'' (PStr (clock w)) record in
           if store_faults w (UpsertFacility kecamatan) then (d, False)
           else (d\<lparr>facilities := upsert kecamatan stamped (facilities d)\<rparr>, True)))"

text \<open>
  The loop of \<^verbatim>\<open>run\<close> over the regions; \<^verbatim>\<open>max_retries\<close> has its default, 3. The state is
  the store, the number of requests made and the trace.
\<close>

fun run_kecamatans :: "world \<Rightarrow> pyval list \<Rightarrow> db \<times> nat \<times> event list \<Rightarrow> (db \<times> nat \<times> event list) \<times> py_error option" where
  "run_kecamatans w [] s = (s, None)"
| "run_kecamatans w (kecamatan # rest) (d, io) =
     (case facility_exists w d kecamatan of
        Inl e \<Rightarrow> ((d, io), Some e)
      | Inr True \<Rightarrow> run_kecamatans w rest (d, io)
      | Inr False \<Rightarrow>
          (case get_facilities_count w kecamatan 3 io of
             (None, io1) \<Rightarrow> run_kecamatans w rest (d, io1)
           | (Some found, io1) \<Rightarrow>
               run_kecamatans w rest (fst (save_facilities_to_mongodb w found d), io1)))"

text \<open>\<^verbatim>\<open>run\<close> catches and logs whatever the loop raises.\<close>

definition fetcher_run :: "world \<Rightarrow> db \<Rightarrow> db \<times> nat \<times> event list" where
  "fetcher_run w d =
     (if store_faults w FindProgress then (d, 0, [])
      else
        (case scraping_progress d of
           None \<Rightarrow> (d, 0, [])
         | Some p \<Rightarrow> fst (run_kecamatans w (get_current_kecamatans w d p) (d, 0, []))))"

section \<open>The specification's advancement rule\<close>

text \<open>
  The rule as the specification words it, for comparison with \<open>advance_progress\<close> and
  \<open>update_progress\<close>: \<^verbatim>\<open>advance(region, new_page)\<close> sets \<^verbatim>\<open>provinces[region] = new_page\<close>
  and, if this was the last region remaining at \<^verbatim>\<open>current_page\<close>, increments
  \<^verbatim>\<open>current_page\<close>.
\<close>

definition advance_spec :: "string \<Rightarrow> int \<Rightarrow> progress \<Rightarrow> progress" where
  "advance_spec region new_page p =
     (let last_remaining =
            (map_of (provinces p) region = Some (current_page p)
             \<and> list_all (\<lambda>(r, c). r = region \<or> c \<noteq> current_page p) (provinces p))
      in \<lparr>current_page = (if last_remaining then current_page p + 1 else current_page p),
          provinces = AList.update region new_page (provinces p)\<rparr>)"

section \<open>Conditions on a run\<close>

text \<open>The progress a crawler run works from: the stored one, or the default it creates.\<close>

definition loaded_progress :: "db \<Rightarrow> progress" where
  "loaded_progress d =
     (case scraping_progress d of
        Some p \<Rightarrow> p
      | None \<Rightarrow> \<lparr>current_page = 1, provinces = map (\<lambda>province. (province, 1)) scraper_provinces\<rparr>)"

text \<open>
  The title a listing is stored under is the \<^verbatim>\<open>h1\<close> of its detail page; the title it is
  deduplicated by is the \<^verbatim>\<open>h2\<close> of its index card. \<open>titles_consistent\<close> says that the site
  shows the same title in both places, for the cards of the pages a run visits.
\<close>

definition house_title_kept :: "world \<Rightarrow> string \<Rightarrow> string \<times> string \<Rightarrow> bool" where
  "house_title_kept w province house =
     (case scrape_house_details w (snd house) province of
        Inl e \<Rightarrow> True
      | Inr details \<Rightarrow> details = [] \<or> map_of details ''judul_iklan'' = Some (PStr (fst house)))"

definition titles_consistent :: "world \<Rightarrow> progress \<Rightarrow> bool" where
  "titles_consistent w p =
     list_all (\<lambda>(province, page).
                 list_all (house_title_kept w province)
                   (scrape_search_page w (search_url province page) []))
       (filter (\<lambda>(province, page). page = current_page p) (provinces p))"

section \<open>Example runs\<close>

definition example_progress :: progress where
  "example_progress = \<lparr>current_page = 1, provinces = [(''dki-jakarta'', 1), (''jawa-barat'', 1)]\<rparr>"

definition example_db :: db where
  "example_db =
     \<lparr>raw_listings = [], facilities = [], cleaned_listings = [], cleaned_facilities = [],
      scraping_progress = Some example_progress\<rparr>"

text \<open>A detail page whose \<^verbatim>\<open>h1\<close> is the given title.\<close>

definition example_soup :: "string \<Rightarrow> soup" where
  "example_soup title selector =
     (if selector = ''h1'' then [title]
      else if selector = ''span.text-primary.font-bold'' then [''Rp 1.200.000.000'']
      else if selector = ''p.text-xs.text-gray-500.mb-2'' then [''Menteng, Jakarta Pusat'']
      else if selector = ''p.text-3xs.text-gray-400.mb-4'' then [''Diperbarui 2024-01-01 oleh Agen A'']
      else [])"

text \<open>
  A site with one card on page 1 of \<^verbatim>\<open>dki-jakarta\<close>, titled \<^verbatim>\<open>Rumah Menteng\<close>, and nothing
  elsewhere; the detail page carries the title given. The API answers every request with
  status \<open>status\<close>; the store fails at the operations \<open>failing\<close>.
\<close>

definition example_world :: "string \<Rightarrow> int \<Rightarrow> (db_op \<Rightarrow> bool) \<Rightarrow> world" where
  "example_world detail_title status failing =
     \<lparr>store_faults = failing,
      site_search = (\<lambda>url. if url = ''https://www.rumah123.com/jual/dki-jakarta/rumah/?page=1''
                           then SearchCards [\<lparr>title_elem = Some ''Rumah Menteng'',
                                              link_elem = Some ''/properti/jakarta-pusat/hos1/''\<rparr>]
                           else SearchCards []),
      site_detail = (\<lambda>url. if url = ''https://www.rumah123.com/properti/jakarta-pusat/hos1/''
                           then DetailSoup (example_soup detail_title)
                           else DetailFailed),
      overpass = (\<lambda>n query. Response status (Some ''7'') (Elements 2)),
      clock = ''2024-01-01T00:00:00'',
      float_repr = (\<lambda>f. ''nan'')\<rparr>"

text \<open>
  A raw listing as the crawler stores it from the example site, with the title, region and
  page given.
\<close>

definition example_listing :: "string \<Rightarrow> pyval \<Rightarrow> int \<Rightarrow> doc" where
  "example_listing title kecamatan page =
     [(''judul_iklan'', PStr title), (''harga'', PInt 1200000000),
      (''kecamatan'', kecamatan), (''kabupaten_kota'', PStr ''Jakarta Pusat''),
      (''provinsi'', PStr ''dki-jakarta''), (''terakhir_diperbarui'', PStr ''2024-01-01''),
      (''agen'', PStr ''Agen A''),
      (''link_rumah123'', PStr ''https://www.rumah123.com/properti/jakarta-pusat/hos1/'')]
     @ map (\<lambda>(field, label). (field, PNone)) detail_labels
     @ [(''waktu_scraping'', PStr ''2024-01-01T00:00:00''),
        (''province'', PStr ''dki-jakarta''), (''page'', PInt page),
        (''inserted_at'', PStr ''2024-01-01T00:00:00'')]"

definition example_cleaner_db :: db where
  "example_cleaner_db = example_db\<lparr>raw_listings := [example_listing ''Rumah Menteng'' (PStr ''Menteng'') 1]\<rparr>"

text \<open>A page whose only raw listing has a title and nothing else.\<close>

definition example_incomplete_db :: db where
  "example_incomplete_db =
     example_db\<lparr>raw_listings := [[(''judul_iklan'', PStr ''Rumah Menteng''), (''page'', PInt 1)]]\<rparr>"



section \<open>One request of the retry loop\<close>

text \<open>
  The state after one pass of the \<^verbatim>\<open>while\<close> loop of \<open>fetch_filter\<close>: a request that
  ended in a retry (one more request, one more retry, the two-second delay, the post and
  the wait in the trace), and a request that ended at \<^verbatim>\<open>break\<close>.
\<close>

definition attempt_failed :: "string \<Rightarrow> int \<Rightarrow> fetch_state \<Rightarrow> fetch_state" where
  "attempt_failed query wait st =
     st\<lparr>calls := calls st + 1, retry_count := retry_count st + 1,
        trace := trace st @ [Sleep 2, Post query, Sleep wait]\<rparr>"

definition attempt_done :: "string \<Rightarrow> fetch_state \<Rightarrow> fetch_state" where
  "attempt_done query st = st\<lparr>calls := calls st + 1, trace := trace st @ [Sleep 2, Post query]\<rparr>"

text \<open>Raw listings of two pages, one of them without a region.\<close>

definition example_regions_db :: db where
  "example_regions_db =
     example_db\<lparr>raw_listings :=
       [example_listing ''Rumah Menteng'' (PStr ''Menteng'') 1,
        example_listing ''Rumah Tanpa Lokasi'' PNone 1,
        example_listing ''Rumah Kuta'' (PStr ''Kuta'') 2,
        example_listing ''Rumah Menteng Dua'' (PStr ''Menteng'') 1]\<rparr>"

section \<open>Field coercion\<close>














section \<open>Schema enforcement\<close>

lemma set_unique_list [simp]: "set (unique_list xs) = set xs"
  by (simp add: unique_list_def)

lemma columns_DataFrame: "set (columns (DataFrame batch)) = (\<Union>r \<in> set batch. fst ` set r)"
  by (auto simp add: DataFrame_def Let_def)

lemma missing_listing_column:
  assumes "col \<in> set listing_required_columns" and "col \<notin> set (columns df)"
  shows "clean_rumah123_data frepr df = Inl ValueError"
  using assms unfolding clean_rumah123_data_def by (meson)

lemma missing_facility_column:
  assumes "col \<in> set facility_required_columns" and "col \<notin> set (columns df)"
  shows "clean_osm_facilities_data frepr df = Inl ValueError"
  using assms unfolding clean_osm_facilities_data_def by (meson)

lemma process_current_page_schema_failure:
  assumes "clean_rumah123_data frepr
             (DataFrame (filter (\<lambda>r. map_of r ''page'' = Some (PInt (current_page p))) (raw_listings d)))
           = Inl e"
  shows "process_current_page frepr faults d p = (d, False)"
  using assms by (simp add: process_current_page_def Let_def)

text \<open>
  C5. A batch in which no record has a given required field: \<open>clean_rumah123_data\<close> and
  \<open>clean_osm_facilities_data\<close> raise \<^verbatim>\<open>ValueError\<close> (the code's schema error) and return no
  frame; and a page whose listings lack a required field leaves the store as it was.
\<close>

theorem schema_enforcement:
  "(col \<in> set listing_required_columns \<and> (\<forall>r \<in> set batch. col \<notin> fst ` set r)
      \<longrightarrow> clean_rumah123_data frepr (DataFrame batch) = Inl ValueError)
   \<and> (col \<in> set facility_required_columns \<and> (\<forall>r \<in> set batch. col \<notin> fst ` set r)
      \<longrightarrow> clean_osm_facilities_data frepr (DataFrame batch) = Inl ValueError)
   \<and> (col \<in> set listing_required_columns
        \<and> (\<forall>r \<in> set (raw_listings d). map_of r ''page'' = Some (PInt (current_page p)) \<longrightarrow> col \<notin> fst ` set r)
      \<longrightarrow> process_current_page frepr faults d p = (d, False))"
proof (intro conjI impI)
  assume a: "col \<in> set listing_required_columns \<and> (\<forall>r \<in> set batch. col \<notin> fst ` set r)"
  then have "col \<notin> set (columns (DataFrame batch))"
    by (simp add: columns_DataFrame)
  with a show "clean_rumah123_data frepr (DataFrame batch) = Inl ValueError"
    using missing_listing_column [of col] by blast
next
  assume a: "col \<in> set facility_required_columns \<and> (\<forall>r \<in> set batch. col \<notin> fst ` set r)"
  then have "col \<notin> set (columns (DataFrame batch))"
    by (simp add: columns_DataFrame)
  with a show "clean_osm_facilities_data frepr (DataFrame batch) = Inl ValueError"
    using missing_facility_column [of col] by blast
next
  let ?batch = "filter (\<lambda>r. map_of r ''page'' = Some (PInt (current_page p))) (raw_listings d)"
  assume a: "col \<in> set listing_required_columns
        \<and> (\<forall>r \<in> set (raw_listings d). map_of r ''page'' = Some (PInt (current_page p)) \<longrightarrow> col \<notin> fst ` set r)"
  then have "col \<notin> set (columns (DataFrame ?batch))"
    by (simp add: columns_DataFrame)
  with a have "clean_rumah123_data frepr (DataFrame ?batch) = Inl ValueError"
    using missing_listing_column [of col] by blast
  then show "process_current_page frepr faults d p = (d, False)"
    by (rule process_current_page_schema_failure)
qed

lemma harga_required: "''harga'' \<in> set listing_required_columns"
  by (simp add: listing_required_columns_def)

theorem schema_enforcement_witness:
  "''harga'' \<in> set listing_required_columns
   \<and> ''harga'' \<notin> (\<Union>r \<in> set (raw_listings example_incomplete_db). fst ` set r)
   \<and> clean_rumah123_data (\<lambda>f. ''nan'') (DataFrame (raw_listings example_incomplete_db)) = Inl ValueError
   \<and> process_current_page (\<lambda>f. ''nan'') (\<lambda>x. False) example_incomplete_db example_progress
       = (example_incomplete_db, False)"
proof -
  have b: "\<forall>r \<in> set (raw_listings example_incomplete_db). ''harga'' \<notin> fst ` set r"
    by (simp add: example_incomplete_db_def)
  then have c: "''harga'' \<notin> (\<Union>r \<in> set (raw_listings example_incomplete_db). fst ` set r)"
    by blast
  show ?thesis
    using schema_enforcement [of "''harga''" "raw_listings example_incomplete_db" "\<lambda>f. ''nan''"
        example_incomplete_db example_progress "\<lambda>x. False"] harga_required b c
    by blast
qed

section \<open>The cleaning stage and the progress record\<close>

lemma advance_loop_map_of:
  "map_of (advance_loop ks cp ps) r =
     (if r \<in> set ks \<and> map_of ps r = Some cp then Some (cp + 1) else map_of ps r)"
proof (induction ks arbitrary: ps)
  case Nil
  then show ?case by simp
next
  case (Cons k ks)
  show ?case
    by (simp add: Cons.IH update_conv' del: AList.update.simps)
qed

lemma advance_loop_keys: "map fst (advance_loop ks cp ps) = map fst ps"
proof (induction ks arbitrary: ps)
  case Nil
  then show ?case by simp
next
  case (Cons k ks)
  have "map_of ps k = Some cp \<Longrightarrow> map fst (AList.update k (cp + 1) ps) = map fst ps"
    by (simp add: update_keys map_of_eq_None_iff[symmetric] del: AList.update.simps)
  then show ?case by (simp add: Cons.IH del: AList.update.simps)
qed

lemma advance_progress_cursor:
  "map_of (provinces (advance_progress p)) r =
     map_option (\<lambda>c. if c = current_page p then c + 1 else c) (map_of (provinces p) r)"
proof (cases "map_of (provinces p) r")
  case None
  then show ?thesis by (simp add: advance_progress_def advance_loop_map_of)
next
  case (Some c)
  then have "r \<in> set (map fst (provinces p))"
    by (metis map_of_eq_None_iff option.distinct(1) set_map)
  with Some show ?thesis by (auto simp add: advance_progress_def advance_loop_map_of)
qed

lemma process_facilities_Inr:
  assumes "process_facilities frepr faults d df = Inr d2"
  shows "raw_listings d2 = raw_listings d \<and> facilities d2 = facilities d
       \<and> cleaned_listings d2 = cleaned_listings d \<and> scraping_progress d2 = scraping_progress d
       \<and> (\<exists>ys. cleaned_facilities d2 = cleaned_facilities d @ ys)"
  using assms
  by (auto simp add: process_facilities_def and_then_def Let_def split: sum.splits if_splits)


lemma process_current_page_progress:
  "scraping_progress (fst (process_current_page frepr faults d p)) =
     (if snd (process_current_page frepr faults d p)
      then map_option (\<lambda>_. advance_progress p) (scraping_progress d)
      else scraping_progress d)"
  by (auto simp add: process_current_page_def Let_def split: sum.split dest: process_facilities_Inr)

lemma update_progress_cursor:
  assumes "\<not> store_faults w (UpdateProgress region)" and "scraping_progress d = Some p"
  shows "\<exists>p'. scraping_progress (update_progress w region page d) = Some p'
          \<and> current_page p' = page
          \<and> (\<forall>r. map_of (provinces p') r = (if r = region then Some page else map_of (provinces p) r))"
  using assms by (simp add: update_progress_def update_conv' del: AList.update.simps)

lemma example_page_completes:
  "process_current_page (\<lambda>f. ''nan'') (\<lambda>x. False) example_cleaner_db example_progress
   = (example_cleaner_db\<lparr>cleaned_listings := [example_listing ''Rumah Menteng'' (PStr ''Menteng'') 1],
        scraping_progress := Some \<lparr>current_page = 2, provinces = [(''dki-jakarta'', 2), (''jawa-barat'', 2)]\<rparr>\<rparr>, True)"
  by code_simp


lemma example_advance_spec:
  "advance_spec ''dki-jakarta'' 2 example_progress
     = \<lparr>current_page = 1, provinces = [(''dki-jakarta'', 2), (''jawa-barat'', 1)]\<rparr>"
  by code_simp

lemma example_listing_province:
  "map (\<lambda>r. map_of r ''province'') (raw_listings example_cleaner_db) = [Some (PStr ''dki-jakarta'')]"
  by code_simp

text \<open>
  C1, as the code has it. When a page completes, \<open>process_current_page\<close> writes
  \<open>advance_progress\<close>: \<^verbatim>\<open>current_page\<close> goes up by one whatever the regions are at, every
  region whose cursor equals the page goes to the next page, every other cursor stays, and no
  region is added or removed. The crawler's \<open>update_progress\<close> sets the cursor of its
  region and \<^verbatim>\<open>current_page\<close> to the page it is given, and no other cursor.
\<close>

theorem advancement_of_every_region_at_the_page:
  "current_page (advance_progress p) = current_page p + 1
   \<and> map fst (provinces (advance_progress p)) = map fst (provinces p)
   \<and> map_of (provinces (advance_progress p)) region
       = map_option (\<lambda>c. if c = current_page p then c + 1 else c) (map_of (provinces p) region)
   \<and> (snd (process_current_page frepr faults d p)
        \<longrightarrow> scraping_progress (fst (process_current_page frepr faults d p))
             = map_option (\<lambda>_. advance_progress p) (scraping_progress d))
   \<and> (\<not> store_faults w (UpdateProgress region) \<and> scraping_progress d = Some p
        \<longrightarrow> (\<exists>p'. scraping_progress (update_progress w region page d) = Some p'
                  \<and> current_page p' = page
                  \<and> (\<forall>r. map_of (provinces p') r = (if r = region then Some page else map_of (provinces p) r))))"
proof (intro conjI impI)
  show "current_page (advance_progress p) = current_page p + 1"
    by (simp add: advance_progress_def)
  show "map fst (provinces (advance_progress p)) = map fst (provinces p)"
    by (simp add: advance_progress_def advance_loop_keys)
  show "map_of (provinces (advance_progress p)) region
       = map_option (\<lambda>c. if c = current_page p then c + 1 else c) (map_of (provinces p) region)"
    by (rule advance_progress_cursor)
next
  assume "snd (process_current_page frepr faults d p)"
  then show "scraping_progress (fst (process_current_page frepr faults d p))
             = map_option (\<lambda>_. advance_progress p) (scraping_progress d)"
    by (simp add: process_current_page_progress)
next
  assume "\<not> store_faults w (UpdateProgress region) \<and> scraping_progress d = Some p"
  then show "\<exists>p'. scraping_progress (update_progress w region page d) = Some p'
                  \<and> current_page p' = page
                  \<and> (\<forall>r. map_of (provinces p') r = (if r = region then Some page else map_of (provinces p) r))"
    using update_progress_cursor by blast
qed

theorem advancement_of_every_region_at_the_page_witness:
  "snd (process_current_page (\<lambda>f. ''nan'') (\<lambda>x. False) example_cleaner_db example_progress)
   \<and> scraping_progress (fst (process_current_page (\<lambda>f. ''nan'') (\<lambda>x. False) example_cleaner_db example_progress))
       = Some (advance_progress example_progress)
   \<and> map_of (provinces (advance_progress example_progress)) ''jawa-barat'' = Some 2"
proof -
  have a: "snd (process_current_page (\<lambda>f. ''nan'') (\<lambda>x. False) example_cleaner_db example_progress)"
    by (simp add: example_page_completes)
  have b: "scraping_progress example_cleaner_db = Some example_progress"
    by (simp add: example_cleaner_db_def example_db_def)
  have c: "map_of (provinces example_progress) ''jawa-barat'' = Some 1" "current_page example_progress = 1"
    by (simp_all add: example_progress_def)
  show ?thesis
    using advancement_of_every_region_at_the_page [of example_progress "''jawa-barat''" "\<lambda>f. ''nan''" "\<lambda>x. False"
        example_cleaner_db] a b c
    by simp
qed

text \<open>
  C1 as stated fails. The only raw listing of page 1 is of \<^verbatim>\<open>dki-jakarta\<close>; the completed
  page moves \<^verbatim>\<open>jawa-barat\<close> from 1 to 2 as well and increments \<^verbatim>\<open>current_page\<close>, where the
  rule of the specification moves \<^verbatim>\<open>dki-jakarta\<close> alone and keeps \<^verbatim>\<open>current_page\<close>.
\<close>

theorem advance_rule_counterexample:
  "map (\<lambda>r. map_of r ''province'') (raw_listings example_cleaner_db) = [Some (PStr ''dki-jakarta'')]
   \<and> scraping_progress example_cleaner_db
       = Some \<lparr>current_page = 1, provinces = [(''dki-jakarta'', 1), (''jawa-barat'', 1)]\<rparr>
   \<and> process_current_page (\<lambda>f. ''nan'') (\<lambda>x. False) example_cleaner_db example_progress
       = (example_cleaner_db\<lparr>cleaned_listings := [example_listing ''Rumah Menteng'' (PStr ''Menteng'') 1],
            scraping_progress := Some \<lparr>current_page = 2, provinces = [(''dki-jakarta'', 2), (''jawa-barat'', 2)]\<rparr>\<rparr>, True)
   \<and> advance_spec ''dki-jakarta'' 2 example_progress
       = \<lparr>current_page = 1, provinces = [(''dki-jakarta'', 2), (''jawa-barat'', 1)]\<rparr>
   \<and> scraping_progress (fst (process_current_page (\<lambda>f. ''nan'') (\<lambda>x. False) example_cleaner_db example_progress))
       \<noteq> Some (advance_spec ''dki-jakarta'' 2 example_progress)"
  by (simp add: example_page_completes example_advance_spec example_listing_province)
     (simp add: example_cleaner_db_def example_db_def example_progress_def)




section \<open>The crawler's loop over the regions\<close>









section \<open>The enrichment client\<close>

lemma fetch_filter_exhausted:
  "\<not> retry_count st < m \<Longrightarrow> fetch_filter w query m st = (None, st)"
  by (simp add: fetch_filter.simps)

lemma fetch_filter_unfold:
  assumes "retry_count st < m"
  shows "fetch_filter w query m st =
     (case overpass w (calls st) query of
        ConnectionFailed \<Rightarrow> fetch_filter w query m (attempt_failed query 5 st)
      | Response status_code retry_after body \<Rightarrow>
          if status_code = 200 then
            (case body of
               BodyError \<Rightarrow> fetch_filter w query m (attempt_failed query 5 st)
             | NoElements \<Rightarrow> (Some 0, attempt_done query st)
             | Elements n \<Rightarrow> (Some n, attempt_done query st))
          else if status_code = 429 then
            (case retry_after_seconds retry_after of
               Inl e \<Rightarrow> fetch_filter w query m (attempt_failed query 5 st)
             | Inr wait_time \<Rightarrow>
                 if wait_time < 0 then fetch_filter w query m (attempt_failed query 5 st)
                 else fetch_filter w query m (attempt_failed query wait_time st))
          else fetch_filter w query m (attempt_failed query 5 st))"
  apply (rule trans [OF fetch_filter.simps])
  using assms
  apply (simp add: Let_def attempt_failed_def attempt_done_def
           split: http_result.split json_body.split sum.split)
  done

lemma fetch_filter_step:
  assumes "retry_count st < m"
  shows "(\<exists>n. fetch_filter w query m st = (Some n, attempt_done query st))
       \<or> (\<exists>wait. fetch_filter w query m st = fetch_filter w query m (attempt_failed query wait st))"
proof -
  note u = fetch_filter_unfold [OF assms, of w query]
  show ?thesis
  proof (cases "overpass w (calls st) query")
    case ConnectionFailed
    with u show ?thesis by auto
  next
    case (Response status_code retry_after body)
    show ?thesis
    proof (cases "status_code = 200")
      case True
      with u Response show ?thesis by (cases body) auto
    next
      case False
      with u Response show ?thesis
        by (cases "retry_after_seconds retry_after") auto
    qed
  qed
qed


lemma fetch_filter_cases [case_names exhausted answered failed]:
  assumes "\<And>st. \<not> retry_count st < m \<Longrightarrow> P st (None, st)"
    and "\<And>st n. retry_count st < m \<Longrightarrow> P st (Some n, attempt_done query st)"
    and "\<And>st wait. retry_count st < m
           \<Longrightarrow> P (attempt_failed query wait st) (fetch_filter w query m (attempt_failed query wait st))
           \<Longrightarrow> P st (fetch_filter w query m (attempt_failed query wait st))"
  shows "P st (fetch_filter w query m st)"
proof (induction "nat (m - retry_count st)" arbitrary: st rule: less_induct)
  case less
  show ?case
  proof (cases "retry_count st < m")
    case False
    then show ?thesis by (simp add: fetch_filter_exhausted assms(1))
  next
    case True
    from fetch_filter_step [OF True, of w query] show ?thesis
    proof (elim disjE exE)
      fix n
      assume "fetch_filter w query m st = (Some n, attempt_done query st)"
      with True show ?thesis by (simp add: assms(2))
    next
      fix wait
      assume eq: "fetch_filter w query m st = fetch_filter w query m (attempt_failed query wait st)"
      have "nat (m - retry_count (attempt_failed query wait st)) < nat (m - retry_count st)"
        using True by (simp add: attempt_failed_def)
      then have "P (attempt_failed query wait st) (fetch_filter w query m (attempt_failed query wait st))"
        by (rule less)
      with True eq show ?thesis by (simp add: assms(3))
    qed
  qed
qed


lemma fetch_filter_None:
  "fst (fetch_filter w query m st) = None \<longleftrightarrow> m \<le> retry_count (snd (fetch_filter w query m st))"
  by (rule fetch_filter_cases) (auto simp add: attempt_failed_def attempt_done_def)


lemma fetch_filter_posts:
  "Post q \<in> set (trace (snd (fetch_filter w query m st))) \<longrightarrow> Post q \<in> set (trace st) \<or> q = query"
  by (rule fetch_filter_cases) (auto simp add: attempt_failed_def attempt_done_def)


lemma fetch_filters_posts:
  "Post q \<in> set (trace (snd (fetch_filters w k m fs count st)))
   \<Longrightarrow> Post q \<in> set (trace st) \<or> (\<exists>f \<in> set fs. q = build_query w k f)"
proof (induction fs arbitrary: count st)
  case Nil
  then show ?case by simp
next
  case (Cons f fs)
  obtain found st1 where r: "fetch_filter w (build_query w k f) m st = (found, st1)"
    by (cases "fetch_filter w (build_query w k f) m st")
  have p: "Post q \<in> set (trace st1) \<Longrightarrow> Post q \<in> set (trace st) \<or> q = build_query w k f"
    using fetch_filter_posts [of q w "build_query w k f" m st] r by simp
  show ?case
  proof (cases "m \<le> retry_count st1")
    case True
    with Cons.prems r p show ?thesis by auto
  next
    case False
    with Cons.prems r have "Post q \<in> set (trace (snd (fetch_filters w k m fs
        (count + (case found of None \<Rightarrow> 0 | Some n \<Rightarrow> int n)) st1)))"
      by simp
    from Cons.IH [OF this] p show ?thesis by auto
  qed
qed


lemma fetch_categories_posts:
  "Post q \<in> set (trace (snd (fetch_categories w k m qs results st)))
   \<Longrightarrow> Post q \<in> set (trace st) \<or> (\<exists>f. q = build_query w k f)"
proof (induction qs arbitrary: results st)
  case Nil
  then show ?case by simp
next
  case (Cons c qs)
  obtain category fs where c: "c = (category, fs)" by (cases c)
  obtain count st1 where r: "fetch_filters w k m fs 0 st = (count, st1)"
    by (cases "fetch_filters w k m fs 0 st")
  have p: "Post q \<in> set (trace st1) \<Longrightarrow> Post q \<in> set (trace st) \<or> (\<exists>f. q = build_query w k f)"
    using fetch_filters_posts [of q w k m fs 0 st] r by auto
  show ?case
  proof (cases count)
    case None
    with Cons.prems c r p show ?thesis by simp
  next
    case (Some t)
    with Cons.prems c r
    have "Post q \<in> set (trace (snd (fetch_categories w k m qs
             (AList.update category (PInt t) results) st1)))"
      by simp
    from Cons.IH [OF this] p show ?thesis by auto
  qed
qed


lemma get_facilities_count_posts:
  "Post q \<in> set (snd (snd (get_facilities_count w k m io)))
   \<Longrightarrow> Post q \<in> set (snd io) \<or> (\<exists>f. q = build_query w k f)"
  using fetch_categories_posts [of q w k m facility_queries "[]" "\<lparr>retry_count = 0, calls = fst io, trace = snd io\<rparr>"]
  by (simp add: get_facilities_count_def split: prod.splits option.splits)

lemma get_facilities_count_kecamatan:
  "fst (get_facilities_count w k m io) = Some found \<Longrightarrow> map_of found ''kecamatan'' = Some k"
  by (auto simp add: get_facilities_count_def update_conv' simp del: AList.update.simps
      split: prod.splits option.splits)


lemma kecamatan_is_region:
  "k \<noteq> PNone \<Longrightarrow> kecamatan_is k f \<longleftrightarrow> map_of f ''kecamatan'' = Some k"
  by (auto simp add: kecamatan_is_def split: option.splits)

lemma upsert_regions:
  assumes "map_of fdoc ''kecamatan'' = Some k" and "k \<noteq> PNone"
  shows "map (\<lambda>f. map_of f ''kecamatan'') (upsert k fdoc fs)
           = (if Some k \<in> (\<lambda>f. map_of f ''kecamatan'') ` set fs
              then map (\<lambda>f. map_of f ''kecamatan'') fs
              else map (\<lambda>f. map_of f ''kecamatan'') fs @ [Some k])"
  using assms by (induction fs) (auto simp add: merge_conv' kecamatan_is_region)

lemma save_regions:
  assumes "map_of fdoc ''kecamatan'' = Some k" and "k \<noteq> PNone"
  shows "map (\<lambda>f. map_of f ''kecamatan'') (facilities (fst (save_facilities_to_mongodb w fdoc d)))
           = (if store_faults w (UpsertFacility k) \<or> Some k \<in> (\<lambda>f. map_of f ''kecamatan'') ` set (facilities d)
              then map (\<lambda>f. map_of f ''kecamatan'') (facilities d)
              else map (\<lambda>f. map_of f ''kecamatan'') (facilities d) @ [Some k])"
proof -
  have "map_of (AList.update ''updated_at'' (PStr (clock w)) fdoc) ''kecamatan'' = Some k"
    using assms by (simp add: update_conv' del: AList.update.simps)
  from upsert_regions [OF this assms(2), of "facilities d"] assms show ?thesis
    by (simp add: save_facilities_to_mongodb_def Let_def del: AList.update.simps)
qed


declare run_kecamatans.simps(2) [simp del]

lemma run_kecamatans_step:
  "run_kecamatans w (k # ks) (d, io) =
     (case facility_exists w d k of
        Inl e \<Rightarrow> ((d, io), Some e)
      | Inr True \<Rightarrow> run_kecamatans w ks (d, io)
      | Inr False \<Rightarrow>
          (case fst (get_facilities_count w k 3 io) of
             None \<Rightarrow> run_kecamatans w ks (d, snd (get_facilities_count w k 3 io))
           | Some fdoc \<Rightarrow>
               run_kecamatans w ks (fst (save_facilities_to_mongodb w fdoc d),
                                    snd (get_facilities_count w k 3 io))))"
  by (cases "get_facilities_count w k 3 io")
     (simp add: run_kecamatans.simps(2) split: sum.split bool.split option.split)

text \<open>An invariant of the loop over the regions: it holds of the state the loop leaves.\<close>

lemma run_kecamatans_invariant:
  assumes "Q s"
    and "\<And>k d io. k \<in> set ks \<Longrightarrow> Q (d, io) \<Longrightarrow> fst (get_facilities_count w k 3 io) = None
           \<Longrightarrow> Q (d, snd (get_facilities_count w k 3 io))"
    and "\<And>k d io fdoc. k \<in> set ks \<Longrightarrow> Q (d, io) \<Longrightarrow> fst (get_facilities_count w k 3 io) = Some fdoc
           \<Longrightarrow> Q (fst (save_facilities_to_mongodb w fdoc d), snd (get_facilities_count w k 3 io))"
  shows "Q (fst (run_kecamatans w ks s))"
  using assms
proof (induction ks arbitrary: s)
  case Nil
  then show ?case by simp
next
  case (Cons k ks)
  obtain d io where s: "s = (d, io)" by (cases s)
  have none: "\<And>k' d io. k' \<in> set ks \<Longrightarrow> Q (d, io) \<Longrightarrow> fst (get_facilities_count w k' 3 io) = None
           \<Longrightarrow> Q (d, snd (get_facilities_count w k' 3 io))"
    using Cons.prems(2) by simp
  have some: "\<And>k' d io fdoc. k' \<in> set ks \<Longrightarrow> Q (d, io) \<Longrightarrow> fst (get_facilities_count w k' 3 io) = Some fdoc
           \<Longrightarrow> Q (fst (save_facilities_to_mongodb w fdoc d), snd (get_facilities_count w k' 3 io))"
    using Cons.prems(3) by simp
  have q: "Q (d, io)" using Cons.prems(1) s by simp
  show ?case
  proof (cases "facility_exists w d k")
    case (Inl e)
    with q s show ?thesis by (simp add: run_kecamatans_step)
  next
    case (Inr existing)
    show ?thesis
    proof (cases existing)
      case True
      with Inr have "run_kecamatans w (k # ks) (d, io) = run_kecamatans w ks (d, io)"
        by (simp add: run_kecamatans_step)
      moreover have "Q (fst (run_kecamatans w ks (d, io)))"
        using q none some by (rule Cons.IH)
      ultimately show ?thesis
        using s by simp
    next
      case False
      show ?thesis
      proof (cases "fst (get_facilities_count w k 3 io)")
        case None
        with Inr False
        have "run_kecamatans w (k # ks) (d, io)
                = run_kecamatans w ks (d, snd (get_facilities_count w k 3 io))"
          by (simp add: run_kecamatans_step)
        moreover have "Q (d, snd (get_facilities_count w k 3 io))"
          using Cons.prems(2) [of k d io] q None by simp
        then have "Q (fst (run_kecamatans w ks (d, snd (get_facilities_count w k 3 io))))"
          using none some by (rule Cons.IH)
        ultimately show ?thesis
          using s by simp
      next
        case (Some fdoc)
        with Inr False
        have "run_kecamatans w (k # ks) (d, io)
                = run_kecamatans w ks (fst (save_facilities_to_mongodb w fdoc d),
                                       snd (get_facilities_count w k 3 io))"
          by (simp add: run_kecamatans_step)
        moreover have "Q (fst (save_facilities_to_mongodb w fdoc d), snd (get_facilities_count w k 3 io))"
          using Cons.prems(3) [of k d io fdoc] q Some by simp
        then have "Q (fst (run_kecamatans w ks (fst (save_facilities_to_mongodb w fdoc d),
                                                 snd (get_facilities_count w k 3 io))))"
          using none some by (rule Cons.IH)
        ultimately show ?thesis
          using s by simp
      qed
    qed
  qed
qed

lemma run_kecamatans_regions_subset:
  assumes nn: "PNone \<notin> set ks"
  shows "set (map (\<lambda>f. map_of f ''kecamatan'') (facilities (fst (fst (run_kecamatans w ks s)))))
     \<subseteq> set (map (\<lambda>f. map_of f ''kecamatan'') (facilities (fst s))) \<union> Some ` set ks"
proof (rule run_kecamatans_invariant
    [where Q = "\<lambda>s'. set (map (\<lambda>f. map_of f ''kecamatan'') (facilities (fst s')))
                      \<subseteq> set (map (\<lambda>f. map_of f ''kecamatan'') (facilities (fst s))) \<union> Some ` set ks"])
  show "set (map (\<lambda>f. map_of f ''kecamatan'') (facilities (fst s)))
          \<subseteq> set (map (\<lambda>f. map_of f ''kecamatan'') (facilities (fst s))) \<union> Some ` set ks"
    by blast
next
  fix k and d :: db and io :: "nat \<times> event list"
  assume "set (map (\<lambda>f. map_of f ''kecamatan'') (facilities (fst (d, io))))
            \<subseteq> set (map (\<lambda>f. map_of f ''kecamatan'') (facilities (fst s))) \<union> Some ` set ks"
  then show "set (map (\<lambda>f. map_of f ''kecamatan'') (facilities (fst (d, snd (get_facilities_count w k 3 io)))))
            \<subseteq> set (map (\<lambda>f. map_of f ''kecamatan'') (facilities (fst s))) \<union> Some ` set ks"
    by simp
next
  fix k and d :: db and io :: "nat \<times> event list" and fdoc
  assume k: "k \<in> set ks"
    and q: "set (map (\<lambda>f. map_of f ''kecamatan'') (facilities (fst (d, io))))
            \<subseteq> set (map (\<lambda>f. map_of f ''kecamatan'') (facilities (fst s))) \<union> Some ` set ks"
    and f: "fst (get_facilities_count w k 3 io) = Some fdoc"
  from f have "map_of fdoc ''kecamatan'' = Some k"
    by (rule get_facilities_count_kecamatan)
  moreover from k nn have "k \<noteq> PNone" by auto
  ultimately
  have "set (map (\<lambda>f. map_of f ''kecamatan'') (facilities (fst (save_facilities_to_mongodb w fdoc d))))
          \<subseteq> set (map (\<lambda>f. map_of f ''kecamatan'') (facilities d)) \<union> {Some k}"
    using save_regions [of fdoc k w d] by auto
  with k q
  show "set (map (\<lambda>f. map_of f ''kecamatan'')
               (facilities (fst (fst (save_facilities_to_mongodb w fdoc d), snd (get_facilities_count w k 3 io)))))
            \<subseteq> set (map (\<lambda>f. map_of f ''kecamatan'') (facilities (fst s))) \<union> Some ` set ks"
    by (simp only: fst_conv) blast
qed

lemma run_kecamatans_regions_distinct:
  assumes "distinct (map (\<lambda>f. map_of f ''kecamatan'') (facilities (fst s)))"
    and nn: "PNone \<notin> set ks"
  shows "distinct (map (\<lambda>f. map_of f ''kecamatan'') (facilities (fst (fst (run_kecamatans w ks s)))))"
proof (rule run_kecamatans_invariant
    [where Q = "\<lambda>s'. distinct (map (\<lambda>f. map_of f ''kecamatan'') (facilities (fst s')))"])
  show "distinct (map (\<lambda>f. map_of f ''kecamatan'') (facilities (fst s)))"
    by (rule assms(1))
next
  fix k and d :: db and io :: "nat \<times> event list"
  assume "distinct (map (\<lambda>f. map_of f ''kecamatan'') (facilities (fst (d, io))))"
  then show "distinct (map (\<lambda>f. map_of f ''kecamatan'')
                         (facilities (fst (d, snd (get_facilities_count w k 3 io)))))"
    by simp
next
  fix k and d :: db and io :: "nat \<times> event list" and fdoc
  assume k: "k \<in> set ks"
    and q: "distinct (map (\<lambda>f. map_of f ''kecamatan'') (facilities (fst (d, io))))"
    and f: "fst (get_facilities_count w k 3 io) = Some fdoc"
  from f have "map_of fdoc ''kecamatan'' = Some k"
    by (rule get_facilities_count_kecamatan)
  moreover from k nn have "k \<noteq> PNone" by auto
  ultimately have "map (\<lambda>f. map_of f ''kecamatan'') (facilities (fst (save_facilities_to_mongodb w fdoc d)))
           = (if store_faults w (UpsertFacility k) \<or> Some k \<in> (\<lambda>f. map_of f ''kecamatan'') ` set (facilities d)
              then map (\<lambda>f. map_of f ''kecamatan'') (facilities d)
              else map (\<lambda>f. map_of f ''kecamatan'') (facilities d) @ [Some k])"
    by (rule save_regions)
  with q
  show "distinct (map (\<lambda>f. map_of f ''kecamatan'')
            (facilities (fst (fst (save_facilities_to_mongodb w fdoc d), snd (get_facilities_count w k 3 io)))))"
    by auto
qed

lemma run_kecamatans_posts:
  assumes "Post q \<in> set (snd (snd (fst (run_kecamatans w ks s))))"
  shows "Post q \<in> set (snd (snd s)) \<or> (\<exists>k \<in> set ks. \<exists>f. q = build_query w k f)"
proof -
  let ?Q = "\<lambda>s'. Post q \<in> set (snd (snd s'))
                 \<longrightarrow> Post q \<in> set (snd (snd s)) \<or> (\<exists>k \<in> set ks. \<exists>f. q = build_query w k f)"
  have "?Q (fst (run_kecamatans w ks s))"
  proof (rule run_kecamatans_invariant [where Q = ?Q])
    show "?Q s" by simp
  next
    fix k and d :: db and io :: "nat \<times> event list"
    assume "k \<in> set ks" and "?Q (d, io)"
    then show "?Q (d, snd (get_facilities_count w k 3 io))"
      using get_facilities_count_posts [of q w k 3 io] by auto
  next
    fix k and d :: db and io :: "nat \<times> event list" and fdoc
    assume "k \<in> set ks" and "?Q (d, io)"
    then show "?Q (fst (save_facilities_to_mongodb w fdoc d), snd (get_facilities_count w k 3 io))"
      using get_facilities_count_posts [of q w k 3 io] by auto
  qed
  with assms show ?thesis by simp
qed

lemma run_kecamatans_all_exist:
  "(\<And>k. k \<in> set ks \<Longrightarrow> facility_exists w d k = Inr True)
   \<Longrightarrow> run_kecamatans w ks (d, io) = ((d, io), None)"
  by (induction ks) (simp_all add: run_kecamatans_step)

lemma distinct_unique_list: "distinct (unique_list xs)"
  by (simp add: unique_list_def)

lemma set_map_filter: "set (List.map_filter f xs) = {y. \<exists>x \<in> set xs. f x = Some y}"
  by (induction xs) (auto split: option.splits)

lemma get_current_kecamatans_set:
  assumes "\<not> store_faults w AggregateKecamatans"
  shows "set (get_current_kecamatans w d p)
     = {k. k \<noteq> PNone \<and> (\<exists>r \<in> set (raw_listings d).
            map_of r ''page'' = Some (PInt (current_page p)) \<and> map_of r ''kecamatan'' = Some k)}"
  using assms
  by (auto simp add: get_current_kecamatans_def set_unique_list set_map_filter split: option.splits if_splits)

lemma get_current_kecamatans_distinct: "distinct (get_current_kecamatans w d p)"
  by (simp add: get_current_kecamatans_def distinct_unique_list)

lemma get_current_kecamatans_not_null: "PNone \<notin> set (get_current_kecamatans w d p)"
  by (auto simp add: get_current_kecamatans_def set_unique_list set_map_filter split: option.splits if_splits)

lemma fetcher_run_posts:
  assumes "Post q \<in> set (snd (snd (fetcher_run w d)))"
  shows "\<exists>p k f. scraping_progress d = Some p \<and> k \<in> set (get_current_kecamatans w d p)
            \<and> q = build_query w k f"
proof (cases "store_faults w FindProgress")
  case True
  with assms show ?thesis by (simp add: fetcher_run_def)
next
  case False
  show ?thesis
  proof (cases "scraping_progress d")
    case None
    with assms False show ?thesis by (simp add: fetcher_run_def)
  next
    case (Some p)
    with assms False
    have "Post q \<in> set (snd (snd (fst (run_kecamatans w (get_current_kecamatans w d p) (d, 0, [])))))"
      by (simp add: fetcher_run_def)
    from run_kecamatans_posts [OF this] Some show ?thesis by auto
  qed
qed

lemma fetcher_run_regions_subset:
  assumes "scraping_progress d = Some p"
  shows "set (map (\<lambda>f. map_of f ''kecamatan'') (facilities (fst (fetcher_run w d))))
     \<subseteq> set (map (\<lambda>f. map_of f ''kecamatan'') (facilities d)) \<union> Some ` set (get_current_kecamatans w d p)"
  using assms
    run_kecamatans_regions_subset [where ks = "get_current_kecamatans w d p" and w = w and s = "(d, 0, [])"]
    get_current_kecamatans_not_null [of w d p]
  by (simp add: fetcher_run_def)

lemma fetcher_run_regions_distinct:
  assumes "distinct (map (\<lambda>f. map_of f ''kecamatan'') (facilities d))"
  shows "distinct (map (\<lambda>f. map_of f ''kecamatan'') (facilities (fst (fetcher_run w d))))"
proof (cases "scraping_progress d")
  case None
  with assms show ?thesis by (simp add: fetcher_run_def)
next
  case (Some p)
  from run_kecamatans_regions_distinct [where ks = "get_current_kecamatans w d p" and w = w and s = "(d, 0, [])"]
    get_current_kecamatans_not_null [of w d p] assms Some
  show ?thesis by (simp add: fetcher_run_def)
qed





lemma fetch_filter_trace_mono:
  "set (trace st) \<subseteq> set (trace (snd (fetch_filter w query m st)))"
  by (rule fetch_filter_cases) (auto simp add: attempt_failed_def attempt_done_def)

lemma fetch_filter_first_post:
  assumes "retry_count st < m"
  shows "Post query \<in> set (trace (snd (fetch_filter w query m st)))"
proof -
  from fetch_filter_step [OF assms, of w query] show ?thesis
  proof (elim disjE exE)
    fix n
    assume "fetch_filter w query m st = (Some n, attempt_done query st)"
    then show ?thesis by (simp add: attempt_done_def)
  next
    fix wait
    assume eq: "fetch_filter w query m st = fetch_filter w query m (attempt_failed query wait st)"
    have "Post query \<in> set (trace (attempt_failed query wait st))"
      by (simp add: attempt_failed_def)
    with fetch_filter_trace_mono [of "attempt_failed query wait st" w query m] eq
    show ?thesis by auto
  qed
qed

lemma fetch_filters_trace_mono:
  "set (trace st) \<subseteq> set (trace (snd (fetch_filters w k m fs count st)))"
proof (induction fs arbitrary: count st)
  case Nil
  then show ?case by simp
next
  case (Cons f fs)
  obtain found st1 where r: "fetch_filter w (build_query w k f) m st = (found, st1)"
    by (cases "fetch_filter w (build_query w k f) m st")
  have m1: "set (trace st) \<subseteq> set (trace st1)"
    using fetch_filter_trace_mono [of st w "build_query w k f" m] r by simp
  show ?case
  proof (cases "m \<le> retry_count st1")
    case True
    with r m1 show ?thesis by simp
  next
    case False
    with r m1 Cons.IH [of st1 "count + (case found of None \<Rightarrow> 0 | Some n \<Rightarrow> int n)"]
    show ?thesis by auto
  qed
qed

lemma fetch_filters_first_post:
  assumes "retry_count st < m"
  shows "Post (build_query w k f) \<in> set (trace (snd (fetch_filters w k m (f # fs) count st)))"
proof -
  obtain found st1 where r: "fetch_filter w (build_query w k f) m st = (found, st1)"
    by (cases "fetch_filter w (build_query w k f) m st")
  have p1: "Post (build_query w k f) \<in> set (trace st1)"
    using fetch_filter_first_post [OF assms, where w = w and query = "build_query w k f"] r by simp
  show ?thesis
  proof (cases "m \<le> retry_count st1")
    case True
    with r p1 show ?thesis by simp
  next
    case False
    with r p1 fetch_filters_trace_mono [of st1 w k m fs "count + (case found of None \<Rightarrow> 0 | Some n \<Rightarrow> int n)"]
    show ?thesis by auto
  qed
qed

lemma fetch_categories_trace_mono:
  "set (trace st) \<subseteq> set (trace (snd (fetch_categories w k m qs results st)))"
proof (induction qs arbitrary: results st)
  case Nil
  then show ?case by simp
next
  case (Cons c qs)
  obtain category fs where c: "c = (category, fs)" by (cases c)
  obtain count st1 where r: "fetch_filters w k m fs 0 st = (count, st1)"
    by (cases "fetch_filters w k m fs 0 st")
  have m1: "set (trace st) \<subseteq> set (trace st1)"
    using fetch_filters_trace_mono [of st w k m fs 0] r by simp
  show ?case
  proof (cases count)
    case None
    with c r m1 show ?thesis by simp
  next
    case (Some t)
    with c r m1 Cons.IH [of st1 "AList.update category (PInt t) results"]
    show ?thesis by auto
  qed
qed

lemma fetch_categories_first_post:
  assumes "retry_count st < m"
  shows "Post (build_query w k f) \<in> set (trace (snd (fetch_categories w k m ((category, f # fs) # qs) results st)))"
proof -
  obtain count st1 where r: "fetch_filters w k m (f # fs) 0 st = (count, st1)"
    by (cases "fetch_filters w k m (f # fs) 0 st")
  have p1: "Post (build_query w k f) \<in> set (trace st1)"
    using fetch_filters_first_post [OF assms, where w = w and k = k and f = f and fs = fs and count = 0] r by simp
  show ?thesis
  proof (cases count)
    case None
    with r p1 show ?thesis by simp
  next
    case (Some t)
    with r p1 fetch_categories_trace_mono [of st1 w k m qs "AList.update category (PInt t) results"]
    show ?thesis by auto
  qed
qed

lemma get_facilities_count_trace_mono:
  "set (snd io) \<subseteq> set (snd (snd (get_facilities_count w k m io)))"
proof (cases "fetch_categories w k m facility_queries [] \<lparr>retry_count = 0, calls = fst io, trace = snd io\<rparr>")
  case (Pair r st1)
  with fetch_categories_trace_mono [where st = "\<lparr>retry_count = 0, calls = fst io, trace = snd io\<rparr>"
      and w = w and k = k and m = m and qs = facility_queries and results = "[]"]
  show ?thesis
    by (cases r) (simp_all add: get_facilities_count_def)
qed

lemma get_facilities_count_first_post:
  assumes "0 < m"
  shows "Post (build_query w k (hd (snd (hd facility_queries)))) \<in> set (snd (snd (get_facilities_count w k m io)))"
proof -
  have "retry_count \<lparr>retry_count = 0, calls = fst io, trace = snd io\<rparr> < m"
    using assms by simp
  from fetch_categories_first_post [OF this, where w = w and k = k
      and category = "fst (hd facility_queries)" and f = "hd (snd (hd facility_queries))"
      and fs = "tl (snd (hd facility_queries))" and qs = "tl facility_queries" and results = "[]"]
  have p: "Post (build_query w k (hd (snd (hd facility_queries))))
      \<in> set (trace (snd (fetch_categories w k m facility_queries []
                 \<lparr>retry_count = 0, calls = fst io, trace = snd io\<rparr>)))"
    by (simp add: facility_queries_def)
  show ?thesis
  proof (cases "fetch_categories w k m facility_queries [] \<lparr>retry_count = 0, calls = fst io, trace = snd io\<rparr>")
    case (Pair r st1)
    with p show ?thesis
      by (cases r) (simp_all add: get_facilities_count_def)
  qed
qed

lemma run_kecamatans_trace_mono:
  "set (snd (snd s)) \<subseteq> set (snd (snd (fst (run_kecamatans w ks s))))"
proof (rule run_kecamatans_invariant
    [where Q = "\<lambda>s'. set (snd (snd s)) \<subseteq> set (snd (snd s'))"])
  show "set (snd (snd s)) \<subseteq> set (snd (snd s))" by simp
next
  fix k and d :: db and io :: "nat \<times> event list"
  assume "set (snd (snd s)) \<subseteq> set (snd (snd (d, io)))"
  with get_facilities_count_trace_mono [of io w k 3]
  show "set (snd (snd s)) \<subseteq> set (snd (snd (d, snd (get_facilities_count w k 3 io))))"
    by auto
next
  fix k and d :: db and io :: "nat \<times> event list" and fdoc
  assume "set (snd (snd s)) \<subseteq> set (snd (snd (d, io)))"
  with get_facilities_count_trace_mono [of io w k 3]
  show "set (snd (snd s))
          \<subseteq> set (snd (snd (fst (save_facilities_to_mongodb w fdoc d), snd (get_facilities_count w k 3 io))))"
    by auto
qed

lemma facility_exists_no_record:
  assumes "\<not> store_faults w (FindFacility k)" and "k \<noteq> PNone"
  shows "facility_exists w d k = Inr (Some k \<in> (\<lambda>f. map_of f ''kecamatan'') ` set (facilities d))"
  using assms by (force simp add: facility_exists_def kecamatan_is_region image_iff)

text \<open>A region of the list without a record, in a run whose lookups work, is submitted.\<close>

lemma run_kecamatans_submits:
  assumes "\<And>k'. \<not> store_faults w (FindFacility k')"
    and "k \<in> set ks" and "PNone \<notin> set ks"
    and "Some k \<notin> (\<lambda>f. map_of f ''kecamatan'') ` set (facilities (fst s))"
  shows "Post (build_query w k (hd (snd (hd facility_queries))))
           \<in> set (snd (snd (fst (run_kecamatans w ks s))))"
  using assms(2,3,4)
proof (induction ks arbitrary: s)
  case Nil
  then show ?case by simp
next
  case (Cons k0 ks)
  obtain d io where s: "s = (d, io)" by (cases s)
  let ?post = "Post (build_query w k (hd (snd (hd facility_queries))))"
  let ?io1 = "snd (get_facilities_count w k0 3 io)"
  from Cons.prems(2) have k0: "k0 \<noteq> PNone" and nn: "PNone \<notin> set ks" by auto
  have ex: "facility_exists w d k0 = Inr (Some k0 \<in> (\<lambda>f. map_of f ''kecamatan'') ` set (facilities d))"
    using assms(1) k0 by (rule facility_exists_no_record)
  show ?case
  proof (cases "k = k0")
    case True
    with Cons.prems(3) s ex have e: "facility_exists w d k0 = Inr False" by simp
    have "?post \<in> set (snd ?io1)"
      using get_facilities_count_first_post [of 3 w k0 io] True by simp
    then have a: "\<And>d'. ?post \<in> set (snd (snd (fst (run_kecamatans w ks (d', ?io1)))))"
      using run_kecamatans_trace_mono [of "(d', ?io1)" w ks for d'] by auto
    show ?thesis
      using s e a by (simp add: run_kecamatans_step split: option.split)
  next
    case False
    with Cons.prems(1) have mem: "k \<in> set ks" by simp
    have nr: "Some k \<notin> (\<lambda>f. map_of f ''kecamatan'') ` set (facilities d)"
      using Cons.prems(3) s by simp
    have ih: "\<And>d' io'. Some k \<notin> (\<lambda>f. map_of f ''kecamatan'') ` set (facilities d')
               \<Longrightarrow> ?post \<in> set (snd (snd (fst (run_kecamatans w ks (d', io')))))"
      using Cons.IH [OF mem nn] by simp
    have saved: "\<And>fdoc. fst (get_facilities_count w k0 3 io) = Some fdoc
            \<Longrightarrow> Some k \<notin> (\<lambda>f. map_of f ''kecamatan'') ` set (facilities (fst (save_facilities_to_mongodb w fdoc d)))"
    proof -
      fix fdoc assume "fst (get_facilities_count w k0 3 io) = Some fdoc"
      then have "map_of fdoc ''kecamatan'' = Some k0"
        by (rule get_facilities_count_kecamatan)
      from save_regions [OF this k0, of w d] nr False
      have "set (map (\<lambda>f. map_of f ''kecamatan'') (facilities (fst (save_facilities_to_mongodb w fdoc d))))
              \<subseteq> set (map (\<lambda>f. map_of f ''kecamatan'') (facilities d)) \<union> {Some k0}"
        by auto
      with nr False
      show "Some k \<notin> (\<lambda>f. map_of f ''kecamatan'') ` set (facilities (fst (save_facilities_to_mongodb w fdoc d)))"
        by auto
    qed
    show ?thesis
      using s ex ih [OF nr] ih [OF saved]
      by (simp add: run_kecamatans_step split: option.split bool.split)
  qed
qed

lemma fetcher_run_submits:
  assumes "\<not> store_faults w FindProgress" and "\<And>k'. \<not> store_faults w (FindFacility k')"
    and "scraping_progress d = Some p" and "k \<in> set (get_current_kecamatans w d p)"
    and "facility_exists w d k = Inr False"
  shows "Post (build_query w k (hd (snd (hd facility_queries)))) \<in> set (snd (snd (fetcher_run w d)))"
proof -
  have nn: "PNone \<notin> set (get_current_kecamatans w d p)"
    by (rule get_current_kecamatans_not_null)
  with assms(4) have "k \<noteq> PNone" by auto
  with assms(2,5) have "Some k \<notin> (\<lambda>f. map_of f ''kecamatan'') ` set (facilities (fst (d, 0::nat, []::event list)))"
    using facility_exists_no_record [of w k d] by simp
  from run_kecamatans_submits [OF assms(2) assms(4) nn this] assms(1,3)
  show ?thesis by (simp add: fetcher_run_def)
qed



lemma fetcher_run_loop:
  assumes "\<not> store_faults w FindProgress" and "scraping_progress d = Some p"
  shows "fetcher_run w d = fst (run_kecamatans w (get_current_kecamatans w d p) (d, 0, []))"
  using assms by (simp add: fetcher_run_def)

text \<open>
  C10. The regions of a run are the distinct \<^verbatim>\<open>kecamatan\<close> values of the raw listings
  whose \<^verbatim>\<open>page\<close> is the current page, of whatever province, the field present and not
  null (when the aggregation succeeds). \<^verbatim>\<open>None\<close> is never among them; every query the
  run posts is built for one of them; and every region the run adds to the facility
  records is one of them. The run is the loop over exactly these regions; and when the
  lookups of the facility records work, each of these regions that has no facility record
  is queried: the query of its first filter expression is posted.
\<close>

theorem enrichment_region_selection:
  "(\<not> store_faults w AggregateKecamatans
      \<longrightarrow> set (get_current_kecamatans w d p)
           = {k. k \<noteq> PNone \<and> (\<exists>r \<in> set (raw_listings d).
                  map_of r ''page'' = Some (PInt (current_page p)) \<and> map_of r ''kecamatan'' = Some k)})
   \<and> distinct (get_current_kecamatans w d p)
   \<and> PNone \<notin> set (get_current_kecamatans w d p)
   \<and> (Post q \<in> set (snd (snd (fetcher_run w d)))
      \<longrightarrow> (\<exists>p k f. scraping_progress d = Some p \<and> k \<in> set (get_current_kecamatans w d p)
                  \<and> q = build_query w k f))
   \<and> (scraping_progress d = Some p
      \<longrightarrow> set (map (\<lambda>f. map_of f ''kecamatan'') (facilities (fst (fetcher_run w d))))
           \<subseteq> set (map (\<lambda>f. map_of f ''kecamatan'') (facilities d))
             \<union> Some ` set (get_current_kecamatans w d p))
   \<and> (\<not> store_faults w FindProgress \<and> scraping_progress d = Some p
      \<longrightarrow> fetcher_run w d = fst (run_kecamatans w (get_current_kecamatans w d p) (d, 0, [])))
   \<and> (\<not> store_faults w FindProgress \<and> (\<forall>k'. \<not> store_faults w (FindFacility k'))
        \<and> scraping_progress d = Some p \<and> k \<in> set (get_current_kecamatans w d p)
        \<and> facility_exists w d k = Inr False
      \<longrightarrow> Post (build_query w k (hd (snd (hd facility_queries)))) \<in> set (snd (snd (fetcher_run w d))))"
  using get_current_kecamatans_set [of w d p] get_current_kecamatans_distinct [of w d p]
    get_current_kecamatans_not_null [of w d p] fetcher_run_posts [of q w d]
    fetcher_run_regions_subset [of d p w] fetcher_run_loop [of w d p]
    fetcher_run_submits [of w d p k]
  by blast

lemma example_regions:
  "get_current_kecamatans (example_world ''Rumah Menteng'' 200 (\<lambda>x. False)) example_regions_db example_progress
     = [PStr ''Menteng'']"
  by code_simp

lemma example_enrichment_run:
  "fst (snd (fetcher_run (example_world ''Rumah Menteng'' 200 (\<lambda>x. False)) example_regions_db)) = 9"
  "map (\<lambda>f. map_of f ''kecamatan'')
     (facilities (fst (fetcher_run (example_world ''Rumah Menteng'' 200 (\<lambda>x. False)) example_regions_db)))
   = [Some (PStr ''Menteng'')]"
  "facility_exists (example_world ''Rumah Menteng'' 200 (\<lambda>x. False)) example_regions_db (PStr ''Menteng'')
     = Inr False"
  by code_simp+

theorem enrichment_region_selection_witness:
  "\<not> store_faults (example_world ''Rumah Menteng'' 200 (\<lambda>x. False)) AggregateKecamatans
   \<and> map (\<lambda>r. (map_of r ''page'', map_of r ''kecamatan'')) (raw_listings example_regions_db)
       = [(Some (PInt 1), Some (PStr ''Menteng'')), (Some (PInt 1), Some PNone),
          (Some (PInt 2), Some (PStr ''Kuta'')), (Some (PInt 1), Some (PStr ''Menteng''))]
   \<and> get_current_kecamatans (example_world ''Rumah Menteng'' 200 (\<lambda>x. False)) example_regions_db example_progress
       = [PStr ''Menteng'']
   \<and> {k. k \<noteq> PNone \<and> (\<exists>r \<in> set (raw_listings example_regions_db).
            map_of r ''page'' = Some (PInt (current_page example_progress)) \<and> map_of r ''kecamatan'' = Some k)}
       = {PStr ''Menteng''}
   \<and> facility_exists (example_world ''Rumah Menteng'' 200 (\<lambda>x. False)) example_regions_db (PStr ''Menteng'')
       = Inr False
   \<and> Post (build_query (example_world ''Rumah Menteng'' 200 (\<lambda>x. False)) (PStr ''Menteng'')
             (hd (snd (hd facility_queries))))
       \<in> set (snd (snd (fetcher_run (example_world ''Rumah Menteng'' 200 (\<lambda>x. False)) example_regions_db)))
   \<and> fst (snd (fetcher_run (example_world ''Rumah Menteng'' 200 (\<lambda>x. False)) example_regions_db)) = 9
   \<and> map (\<lambda>f. map_of f ''kecamatan'')
       (facilities (fst (fetcher_run (example_world ''Rumah Menteng'' 200 (\<lambda>x. False)) example_regions_db)))
     = [Some (PStr ''Menteng'')]"
proof -
  have a: "\<not> store_faults (example_world ''Rumah Menteng'' 200 (\<lambda>x. False)) AggregateKecamatans"
    "\<not> store_faults (example_world ''Rumah Menteng'' 200 (\<lambda>x. False)) FindProgress"
    "\<forall>k'. \<not> store_faults (example_world ''Rumah Menteng'' 200 (\<lambda>x. False)) (FindFacility k')"
    by (simp_all add: example_world_def)
  have b: "map (\<lambda>r. (map_of r ''page'', map_of r ''kecamatan'')) (raw_listings example_regions_db)
       = [(Some (PInt 1), Some (PStr ''Menteng'')), (Some (PInt 1), Some PNone),
          (Some (PInt 2), Some (PStr ''Kuta'')), (Some (PInt 1), Some (PStr ''Menteng''))]"
    by code_simp
  have c: "scraping_progress example_regions_db = Some example_progress"
    by (simp add: example_regions_db_def example_db_def)
  have m: "PStr ''Menteng''
      \<in> set (get_current_kecamatans (example_world ''Rumah Menteng'' 200 (\<lambda>x. False)) example_regions_db
               example_progress)"
    by (simp add: example_regions)
  note t = enrichment_region_selection [where w = "example_world ''Rumah Menteng'' 200 (\<lambda>x. False)"
        and d = example_regions_db and p = example_progress and k = "PStr ''Menteng''"]
  from t a(1) have sel: "set (get_current_kecamatans (example_world ''Rumah Menteng'' 200 (\<lambda>x. False))
                 example_regions_db example_progress)
       = {k. k \<noteq> PNone \<and> (\<exists>r \<in> set (raw_listings example_regions_db).
            map_of r ''page'' = Some (PInt (current_page example_progress)) \<and> map_of r ''kecamatan'' = Some k)}"
    by blast
  from t a(2,3) c m example_enrichment_run(3)
  have post: "Post (build_query (example_world ''Rumah Menteng'' 200 (\<lambda>x. False)) (PStr ''Menteng'')
             (hd (snd (hd facility_queries))))
       \<in> set (snd (snd (fetcher_run (example_world ''Rumah Menteng'' 200 (\<lambda>x. False)) example_regions_db)))"
    by blast
  from sel have sel': "{k. k \<noteq> PNone \<and> (\<exists>r \<in> set (raw_listings example_regions_db).
            map_of r ''page'' = Some (PInt (current_page example_progress)) \<and> map_of r ''kecamatan'' = Some k)}
       = {PStr ''Menteng''}"
    by (simp add: example_regions)
  show ?thesis
    using a(1) b example_regions sel' example_enrichment_run post
    by simp
qed


section \<open>Running the crawler twice\<close>

lemma collect_cards_member:
  "h \<in> set (collect_cards T cs) \<longleftrightarrow> PStr (fst h) \<notin> set T \<and> h \<in> set (collect_cards [] cs)"
  by (induction cs) (auto simp add: Let_def split: option.splits)

lemma scrape_search_page_member:
  "h \<in> set (scrape_search_page w url T) \<longleftrightarrow>
     PStr (fst h) \<notin> set T \<and> h \<in> set (scrape_search_page w url [])"
proof (cases "site_search w url")
  case SearchFailed
  then show ?thesis by (simp add: scrape_search_page_def)
next
  case (SearchCards cs)
  with collect_cards_member [of h T cs] show ?thesis
    by (simp add: scrape_search_page_def)
qed

lemma scrape_search_page_clock [simp]:
  "scrape_search_page (w\<lparr>clock := t\<rparr>) url T = scrape_search_page w url T"
  by (simp add: scrape_search_page_def)

lemma scrape_house_details_failed:
  "scrape_house_details w url province = Inr [] \<longleftrightarrow> site_detail w url = DetailFailed"
  by (auto simp add: scrape_house_details_def and_then_def Let_def
      split: detail_response.splits sum.splits prod.splits)

lemma collect_details_Inr:
  "collect_details w province hs = Inr ds \<Longrightarrow> h \<in> set hs
   \<Longrightarrow> \<exists>details. scrape_house_details w (snd h) province = Inr details
         \<and> (details \<noteq> [] \<longrightarrow> details \<in> set ds)"
proof (induction hs arbitrary: ds)
  case Nil
  then show ?case by simp
next
  case (Cons a hs)
  from Cons.prems(1) obtain da dr where
    a: "scrape_house_details w (snd a) province = Inr da"
    and r: "collect_details w province hs = Inr dr"
    and ds: "ds = (if da \<noteq> [] then da # dr else dr)"
    by (auto simp add: and_then_def split: sum.splits)
  show ?case
  proof (cases "h = a")
    case True
    with a ds show ?thesis by auto
  next
    case False
    with Cons.prems(2) have "h \<in> set hs" by simp
    from Cons.IH [OF r this] ds show ?thesis by auto
  qed
qed

lemma collect_details_all_failed:
  "(\<And>h. h \<in> set hs \<Longrightarrow> scrape_house_details w (snd h) province = Inr [])
   \<Longrightarrow> collect_details w province hs = Inr []"
  by (induction hs) (simp_all add: and_then_def)


declare run_provinces.simps(2) [simp del]

text \<open>The store after the region's listings were stored, or not, and its progress written.\<close>

lemma run_provinces_step:
  "run_provinces w T cp ((q, n) # rest) d =
     (if n \<noteq> cp \<or> scrape_search_page w (search_url q n) T = [] then run_provinces w T cp rest d
      else
        (case collect_details w q (scrape_search_page w (search_url q n) T) of
           Inl e \<Rightarrow> (d, Some e)
         | Inr ds \<Rightarrow>
             run_provinces w T cp rest
               (if ds = [] then d
                else if snd (store_to_mongodb w ds q n d)
                     then update_progress w q n (fst (store_to_mongodb w ds q n d))
                     else fst (store_to_mongodb w ds q n d))))"
  by (cases "store_to_mongodb w ds q n d")
     (auto simp add: run_provinces.simps(2) Let_def split: sum.split prod.split)

lemma store_to_mongodb_frame:
  "scraping_progress (fst (store_to_mongodb w ds q n d)) = scraping_progress d
   \<and> set (raw_listings d) \<subseteq> set (raw_listings (fst (store_to_mongodb w ds q n d)))"
  by (auto simp add: store_to_mongodb_def Let_def)

lemma store_to_mongodb_titles:
  assumes "\<not> store_faults w (InsertRawListings q)" and "det \<in> set ds"
  shows "\<exists>r \<in> set (raw_listings (fst (store_to_mongodb w ds q n d))).
           map_of r ''judul_iklan'' = map_of det ''judul_iklan''"
proof -
  let ?r = "AList.update ''inserted_at'' (PStr (clock w))
              (AList.update ''page'' (PInt n) (AList.update ''province'' (PStr q) det))"
  have "map_of ?r ''judul_iklan'' = map_of det ''judul_iklan''"
    by (simp add: update_conv' del: AList.update.simps)
  moreover have "?r \<in> set (raw_listings (fst (store_to_mongodb w ds q n d)))"
    using assms by (auto simp add: store_to_mongodb_def Let_def simp del: AList.update.simps)
  ultimately show ?thesis by blast
qed

lemma update_progress_raw [simp]:
  "raw_listings (update_progress w q n d) = raw_listings d"
  by (simp add: update_progress_def)

lemma update_progress_kept:
  assumes "scraping_progress d = Some p" and "current_page p = n" and "map_of (provinces p) q = Some n"
  shows "scraping_progress (update_progress w q n d) = Some p"
proof -
  have "AList.update q n (provinces p) = provinces p"
    using assms(3) by (rule update_triv)
  with assms(1,2) show ?thesis by (simp add: update_progress_def)
qed

text \<open>The store after one region of the loop, when the loop goes on.\<close>

lemma region_step_frame:
  assumes "scraping_progress d = Some p" and "current_page p = n" and "map_of (provinces p) q = Some n"
  shows "scraping_progress
           (if ds = [] then d
            else if snd (store_to_mongodb w ds q n d)
                 then update_progress w q n (fst (store_to_mongodb w ds q n d))
                 else fst (store_to_mongodb w ds q n d)) = Some p
       \<and> set (raw_listings d)
           \<subseteq> set (raw_listings
                 (if ds = [] then d
                  else if snd (store_to_mongodb w ds q n d)
                       then update_progress w q n (fst (store_to_mongodb w ds q n d))
                       else fst (store_to_mongodb w ds q n d)))"
  using assms store_to_mongodb_frame [of w ds q n d]
    update_progress_kept [of "fst (store_to_mongodb w ds q n d)" p n q w]
  by auto

lemma region_step_titles:
  assumes "\<not> store_faults w (InsertRawListings q)" and "det \<in> set ds"
  shows "\<exists>r \<in> set (raw_listings
                 (if ds = [] then d
                  else if snd (store_to_mongodb w ds q n d)
                       then update_progress w q n (fst (store_to_mongodb w ds q n d))
                       else fst (store_to_mongodb w ds q n d))).
           map_of r ''judul_iklan'' = map_of det ''judul_iklan''"
  using assms store_to_mongodb_titles [OF assms, where n = n and d = d] by auto

lemma run_provinces_first_run:
  assumes "run_provinces w T cp ps d = (d', None)"
    and "\<And>q. \<not> store_faults w (InsertRawListings q)"
    and "scraping_progress d = Some p" and "current_page p = cp"
    and "\<And>q n. (q, n) \<in> set ps \<Longrightarrow> n = cp \<Longrightarrow> map_of (provinces p) q = Some n"
  shows "scraping_progress d' = Some p
       \<and> set (raw_listings d) \<subseteq> set (raw_listings d')
       \<and> (\<forall>(q, n) \<in> set ps. n = cp \<longrightarrow>
            (\<forall>h \<in> set (scrape_search_page w (search_url q n) T).
               \<exists>det. scrape_house_details w (snd h) q = Inr det
                 \<and> (det \<noteq> [] \<longrightarrow> (\<exists>r \<in> set (raw_listings d').
                        map_of r ''judul_iklan'' = map_of det ''judul_iklan''))))"
  using assms
proof (induction ps arbitrary: d)
  case Nil
  then show ?case by simp
next
  case (Cons a ps)
  obtain q n where a: "a = (q, n)" by (cases a)
  have rest: "\<And>q n. (q, n) \<in> set ps \<Longrightarrow> n = cp \<Longrightarrow> map_of (provinces p) q = Some n"
    using Cons.prems(5) by simp
  let ?hs = "scrape_search_page w (search_url q n) T"
  show ?case
  proof (cases "n \<noteq> cp \<or> ?hs = []")
    case True
    with Cons.prems(1) a have "run_provinces w T cp ps d = (d', None)"
      by (simp add: run_provinces_step)
    from Cons.IH [OF this Cons.prems(2,3,4) rest] True a show ?thesis
      by auto
  next
    case False
    then have n: "n = cp" by simp
    from Cons.prems(1) a False obtain ds where
      ds: "collect_details w q ?hs = Inr ds"
      by (cases "collect_details w q ?hs") (auto simp add: run_provinces_step)
    let ?d1 = "if ds = [] then d
               else if snd (store_to_mongodb w ds q n d)
                    then update_progress w q n (fst (store_to_mongodb w ds q n d))
                    else fst (store_to_mongodb w ds q n d)"
    from Cons.prems(1) a False ds have run: "run_provinces w T cp ps ?d1 = (d', None)"
      by (simp add: run_provinces_step)
    have cur: "map_of (provinces p) q = Some n"
      using Cons.prems(5) [of q n] a n by simp
    from region_step_frame [OF Cons.prems(3) _ cur, where ds = ds and w = w] Cons.prems(4) n
    have p1: "scraping_progress ?d1 = Some p"
      and m1: "set (raw_listings d) \<subseteq> set (raw_listings ?d1)"
      by blast+
    from Cons.IH [OF run Cons.prems(2) p1 Cons.prems(4) rest]
    have ih1: "scraping_progress d' = Some p"
      and ih2: "set (raw_listings ?d1) \<subseteq> set (raw_listings d')"
      and ih3: "\<forall>(q, n) \<in> set ps. n = cp \<longrightarrow>
            (\<forall>h \<in> set (scrape_search_page w (search_url q n) T).
               \<exists>det. scrape_house_details w (snd h) q = Inr det
                 \<and> (det \<noteq> [] \<longrightarrow> (\<exists>r \<in> set (raw_listings d').
                        map_of r ''judul_iklan'' = map_of det ''judul_iklan'')))"
      by blast+
    have head: "\<forall>h \<in> set ?hs.
               \<exists>det. scrape_house_details w (snd h) q = Inr det
                 \<and> (det \<noteq> [] \<longrightarrow> (\<exists>r \<in> set (raw_listings d').
                        map_of r ''judul_iklan'' = map_of det ''judul_iklan''))"
    proof
      fix h assume "h \<in> set ?hs"
      from collect_details_Inr [OF ds this] obtain det where
        det: "scrape_house_details w (snd h) q = Inr det" and mem: "det \<noteq> [] \<longrightarrow> det \<in> set ds"
        by blast
      have "det \<noteq> [] \<longrightarrow> (\<exists>r \<in> set (raw_listings d').
                        map_of r ''judul_iklan'' = map_of det ''judul_iklan'')"
      proof
        assume "det \<noteq> []"
        with mem have "det \<in> set ds" by simp
        from region_step_titles [OF Cons.prems(2) this, where n = n and d = d]
        obtain r where "r \<in> set (raw_listings ?d1)"
          and "map_of r ''judul_iklan'' = map_of det ''judul_iklan''"
          by blast
        with ih2 show "\<exists>r \<in> set (raw_listings d'). map_of r ''judul_iklan'' = map_of det ''judul_iklan''"
          by blast
      qed
      with det show "\<exists>det. scrape_house_details w (snd h) q = Inr det
                 \<and> (det \<noteq> [] \<longrightarrow> (\<exists>r \<in> set (raw_listings d').
                        map_of r ''judul_iklan'' = map_of det ''judul_iklan''))"
        by blast
    qed
    from ih1 ih2 m1 ih3 head a show ?thesis
      by auto
  qed
qed

lemma run_provinces_nothing_new:
  assumes "\<And>q n h. (q, n) \<in> set ps \<Longrightarrow> n = cp \<Longrightarrow> h \<in> set (scrape_search_page w (search_url q n) T)
             \<Longrightarrow> scrape_house_details w (snd h) q = Inr []"
  shows "run_provinces w T cp ps d = (d, None)"
  using assms
proof (induction ps)
  case Nil
  then show ?case by simp
next
  case (Cons a ps)
  obtain q n where a: "a = (q, n)" by (cases a)
  have ih: "run_provinces w T cp ps d = (d, None)"
    using Cons.prems by (intro Cons.IH) auto
  show ?case
  proof (cases "n \<noteq> cp \<or> scrape_search_page w (search_url q n) T = []")
    case True
    with a ih show ?thesis by (simp add: run_provinces_step)
  next
    case False
    have "collect_details w q (scrape_search_page w (search_url q n) T) = Inr []"
      using Cons.prems [of q n] a False by (intro collect_details_all_failed) auto
    with a ih False show ?thesis by (simp add: run_provinces_step)
  qed
qed

lemma fetch_existing_titles_set:
  assumes "\<not> store_faults w DistinctTitles"
  shows "set (fetch_existing_titles w d)
           = {v. \<exists>r \<in> set (raw_listings d). map_of r ''judul_iklan'' = Some v}"
  using assms by (simp add: fetch_existing_titles_def set_map_filter)

lemma scraper_load_progress_ok:
  assumes "scraper_load_progress w d = Inr (d0, p)"
  shows "p = loaded_progress d \<and> scraping_progress d0 = Some p \<and> raw_listings d0 = raw_listings d
       \<and> \<not> store_faults w FindProgress"
  using assms
  by (auto simp add: scraper_load_progress_def loaded_progress_def Let_def
      split: if_splits option.splits)

lemma scraper_load_progress_stored:
  assumes "\<not> store_faults w FindProgress" and "scraping_progress d = Some p"
  shows "scraper_load_progress w d = Inr (d, p)"
  using assms by (simp add: scraper_load_progress_def)

lemma titles_consistent_house:
  assumes "titles_consistent w p" and "(q, n) \<in> set (provinces p)" and "n = current_page p"
    and "h \<in> set (scrape_search_page w (search_url q n) [])"
    and "scrape_house_details w (snd h) q = Inr det" and "det \<noteq> []"
  shows "map_of det ''judul_iklan'' = Some (PStr (fst h))"
proof -
  from assms(1,2,3) have "list_all (house_title_kept w q) (scrape_search_page w (search_url q n) [])"
    by (auto simp add: titles_consistent_def list_all_iff)
  with assms(4) have "house_title_kept w q h"
    by (simp add: list_all_iff)
  with assms(5,6) show ?thesis
    by (simp add: house_title_kept_def)
qed

lemma second_crawl_stores_nothing:
  assumes nd: "\<not> store_faults w DistinctTitles"
    and ni: "\<And>q. \<not> store_faults w (InsertRawListings q)"
    and ok: "snd (scraper_run w d) = None"
    and dist: "distinct (map fst (provinces (loaded_progress d)))"
    and tc: "titles_consistent w (loaded_progress d)"
  shows "scraper_run (w\<lparr>clock := later\<rparr>) (fst (scraper_run w d)) = (fst (scraper_run w d), None)"
proof -
  let ?w' = "w\<lparr>clock := later\<rparr>"
  let ?p = "loaded_progress d"
  let ?cp = "current_page ?p"
  let ?ps = "provinces ?p"
  from ok obtain d0 p where load: "scraper_load_progress w d = Inr (d0, p)"
    by (cases "scraper_load_progress w d") (auto simp add: scraper_run_def)
  from scraper_load_progress_ok [OF load]
  have p: "p = ?p" and prog0: "scraping_progress d0 = Some ?p"
    and raw0: "raw_listings d0 = raw_listings d" and nf: "\<not> store_faults w FindProgress"
    by simp_all
  let ?T0 = "fetch_existing_titles w d0"
  let ?d1 = "fst (scraper_run w d)"
  from load p ok have run1: "run_provinces w ?T0 ?cp ?ps d0 = (?d1, None)"
    by (simp add: scraper_run_def prod_eq_iff)
  have cur: "\<And>q n. (q, n) \<in> set ?ps \<Longrightarrow> n = ?cp \<Longrightarrow> map_of ?ps q = Some n"
    using dist by simp
  from run_provinces_first_run [OF run1 ni prog0 refl cur]
  have prog1: "scraping_progress ?d1 = Some ?p"
    and mono: "set (raw_listings d0) \<subseteq> set (raw_listings ?d1)"
    and stored: "\<forall>(q, n) \<in> set ?ps. n = ?cp \<longrightarrow>
            (\<forall>h \<in> set (scrape_search_page w (search_url q n) ?T0).
               \<exists>det. scrape_house_details w (snd h) q = Inr det
                 \<and> (det \<noteq> [] \<longrightarrow> (\<exists>r \<in> set (raw_listings ?d1).
                        map_of r ''judul_iklan'' = map_of det ''judul_iklan'')))"
    by blast+
  let ?T1 = "fetch_existing_titles ?w' ?d1"
  have T1: "set ?T1 = {v. \<exists>r \<in> set (raw_listings ?d1). map_of r ''judul_iklan'' = Some v}"
    using nd by (simp add: fetch_existing_titles_set)
  have T0: "set ?T0 = {v. \<exists>r \<in> set (raw_listings d0). map_of r ''judul_iklan'' = Some v}"
    using nd by (simp add: fetch_existing_titles_set)
  from T0 T1 mono have sub: "set ?T0 \<subseteq> set ?T1" by blast
  have load2: "scraper_load_progress ?w' ?d1 = Inr (?d1, ?p)"
    using nf prog1 by (simp add: scraper_load_progress_stored)
  have "run_provinces ?w' ?T1 ?cp ?ps ?d1 = (?d1, None)"
  proof (rule run_provinces_nothing_new)
    fix q n h
    assume qn: "(q, n) \<in> set ?ps" and n: "n = ?cp"
      and h: "h \<in> set (scrape_search_page ?w' (search_url q n) ?T1)"
    from h have h1: "h \<in> set (scrape_search_page w (search_url q n) ?T1)" by simp
    then have fresh: "PStr (fst h) \<notin> set ?T1"
      and all: "h \<in> set (scrape_search_page w (search_url q n) [])"
      using scrape_search_page_member [of h w "search_url q n" ?T1] by simp_all
    from fresh sub have "PStr (fst h) \<notin> set ?T0" by blast
    with all have "h \<in> set (scrape_search_page w (search_url q n) ?T0)"
      using scrape_search_page_member [of h w "search_url q n" ?T0] by simp
    with stored qn n obtain det where
      det: "scrape_house_details w (snd h) q = Inr det"
      and kept: "det \<noteq> [] \<longrightarrow> (\<exists>r \<in> set (raw_listings ?d1).
                        map_of r ''judul_iklan'' = map_of det ''judul_iklan'')"
      by blast
    have "det = []"
    proof (rule ccontr)
      assume ne: "det \<noteq> []"
      from titles_consistent_house [OF tc qn n all det ne]
      have "map_of det ''judul_iklan'' = Some (PStr (fst h))" .
      with kept ne have "PStr (fst h) \<in> set ?T1"
        using T1 by auto
      with fresh show False by simp
    qed
    with det have "site_detail w (snd h) = DetailFailed"
      by (simp add: scrape_house_details_failed)
    then show "scrape_house_details ?w' (snd h) q = Inr []"
      by (simp add: scrape_house_details_failed)
  qed
  with load2 show ?thesis
    by (simp add: scraper_run_def)
qed

text \<open>
  C7, as the code has it. Take a first run that ended normally, with the dedup set and the
  inserts working, a progress record with one cursor per region, and a site that shows each
  listing under the same title on its index card and on its detail page. A second run over
  the same site, at a later time, leaves the store as the first run left it: it inserts no
  raw listing. Every house handed on to the detail fetch has a title outside the dedup set.
  A region with a facility record is passed over, store, request count and trace unchanged;
  and a run leaves at most one facility record per region if it found at most one.
\<close>

theorem rerun_stores_nothing_twice:
  "(\<not> store_faults w DistinctTitles \<and> (\<forall>q. \<not> store_faults w (InsertRawListings q))
      \<and> snd (scraper_run w d) = None
      \<and> distinct (map fst (provinces (loaded_progress d)))
      \<and> titles_consistent w (loaded_progress d)
      \<longrightarrow> scraper_run (w\<lparr>clock := later\<rparr>) (fst (scraper_run w d)) = (fst (scraper_run w d), None))
   \<and> (h \<in> set (scrape_search_page w url existing_titles) \<longrightarrow> PStr (fst h) \<notin> set existing_titles)
   \<and> (facility_exists w d k = Inr True
      \<longrightarrow> run_kecamatans w (k # rest) (d, io) = run_kecamatans w rest (d, io))
   \<and> (distinct (map (\<lambda>f. map_of f ''kecamatan'') (facilities d))
      \<longrightarrow> distinct (map (\<lambda>f. map_of f ''kecamatan'') (facilities (fst (fetcher_run w d)))))"
proof (intro conjI impI)
  assume "\<not> store_faults w DistinctTitles \<and> (\<forall>q. \<not> store_faults w (InsertRawListings q))
      \<and> snd (scraper_run w d) = None
      \<and> distinct (map fst (provinces (loaded_progress d)))
      \<and> titles_consistent w (loaded_progress d)"
  then show "scraper_run (w\<lparr>clock := later\<rparr>) (fst (scraper_run w d)) = (fst (scraper_run w d), None)"
    using second_crawl_stores_nothing [of w d later] by blast
next
  assume "h \<in> set (scrape_search_page w url existing_titles)"
  then show "PStr (fst h) \<notin> set existing_titles"
    using scrape_search_page_member [of h w url existing_titles] by simp
next
  assume "facility_exists w d k = Inr True"
  then show "run_kecamatans w (k # rest) (d, io) = run_kecamatans w rest (d, io)"
    by (simp add: run_kecamatans_step)
next
  assume "distinct (map (\<lambda>f. map_of f ''kecamatan'') (facilities d))"
  then show "distinct (map (\<lambda>f. map_of f ''kecamatan'') (facilities (fst (fetcher_run w d))))"
    by (rule fetcher_run_regions_distinct)
qed

lemma example_first_crawl:
  "scraper_run (example_world ''Rumah Menteng'' 200 (\<lambda>x. False)) example_db
     = (example_cleaner_db, None)"
  by code_simp

lemma example_titles_consistent:
  "titles_consistent (example_world ''Rumah Menteng'' 200 (\<lambda>x. False)) (loaded_progress example_db)"
  by code_simp

lemma example_titles_inconsistent:
  "\<not> titles_consistent (example_world ''Rumah Menteng Jakarta Pusat'' 200 (\<lambda>x. False))
       (loaded_progress example_db)"
  by code_simp

lemma example_regions_distinct:
  "distinct (map fst (provinces (loaded_progress example_db)))"
  by code_simp

lemma example_retitled_crawls:
  "scraper_run (example_world ''Rumah Menteng Jakarta Pusat'' 200 (\<lambda>x. False)) example_db
     = (example_db\<lparr>raw_listings := [example_listing ''Rumah Menteng Jakarta Pusat'' (PStr ''Menteng'') 1]\<rparr>, None)"
  "scraper_run (example_world ''Rumah Menteng Jakarta Pusat'' 200 (\<lambda>x. False))
       (example_db\<lparr>raw_listings := [example_listing ''Rumah Menteng Jakarta Pusat'' (PStr ''Menteng'') 1]\<rparr>)
     = (example_db\<lparr>raw_listings := [example_listing ''Rumah Menteng Jakarta Pusat'' (PStr ''Menteng'') 1,
           example_listing ''Rumah Menteng Jakarta Pusat'' (PStr ''Menteng'') 1]\<rparr>, None)"
  by code_simp+

theorem rerun_stores_nothing_twice_witness:
  "\<not> store_faults (example_world ''Rumah Menteng'' 200 (\<lambda>x. False)) DistinctTitles
   \<and> snd (scraper_run (example_world ''Rumah Menteng'' 200 (\<lambda>x. False)) example_db) = None
   \<and> fst (scraper_run (example_world ''Rumah Menteng'' 200 (\<lambda>x. False)) example_db) = example_cleaner_db
   \<and> distinct (map fst (provinces (loaded_progress example_db)))
   \<and> titles_consistent (example_world ''Rumah Menteng'' 200 (\<lambda>x. False)) (loaded_progress example_db)
   \<and> scraper_run ((example_world ''Rumah Menteng'' 200 (\<lambda>x. False))\<lparr>clock := ''2024-01-02T00:00:00''\<rparr>)
         example_cleaner_db
       = (example_cleaner_db, None)"
proof -
  have a: "\<not> store_faults (example_world ''Rumah Menteng'' 200 (\<lambda>x. False)) DistinctTitles"
    and b: "\<forall>q. \<not> store_faults (example_world ''Rumah Menteng'' 200 (\<lambda>x. False)) (InsertRawListings q)"
    by (simp_all add: example_world_def)
  show ?thesis
    using rerun_stores_nothing_twice [of "example_world ''Rumah Menteng'' 200 (\<lambda>x. False)" example_db
        "''2024-01-02T00:00:00''"]
      a b example_first_crawl example_titles_consistent example_regions_distinct
    by simp
qed

text \<open>
  C7 as stated fails. The detail page's \<^verbatim>\<open>h1\<close> (\<^verbatim>\<open>Rumah Menteng Jakarta Pusat\<close>) is not the
  index card's title (\<^verbatim>\<open>Rumah Menteng\<close>): the stored title never matches the candidate's,
  and the second run over the unchanged site inserts the listing again.
\<close>

theorem rerun_duplicate_counterexample:
  "scraper_run (example_world ''Rumah Menteng Jakarta Pusat'' 200 (\<lambda>x. False)) example_db
     = (example_db\<lparr>raw_listings := [example_listing ''Rumah Menteng Jakarta Pusat'' (PStr ''Menteng'') 1]\<rparr>, None)
   \<and> scraper_run (example_world ''Rumah Menteng Jakarta Pusat'' 200 (\<lambda>x. False))
       (example_db\<lparr>raw_listings := [example_listing ''Rumah Menteng Jakarta Pusat'' (PStr ''Menteng'') 1]\<rparr>)
     = (example_db\<lparr>raw_listings := [example_listing ''Rumah Menteng Jakarta Pusat'' (PStr ''Menteng'') 1,
           example_listing ''Rumah Menteng Jakarta Pusat'' (PStr ''Menteng'') 1]\<rparr>, None)
   \<and> \<not> titles_consistent (example_world ''Rumah Menteng Jakarta Pusat'' 200 (\<lambda>x. False))
         (loaded_progress example_db)"
  using example_retitled_crawls example_titles_inconsistent by simp


section \<open>Regions without new candidates\<close>
















section \<open>What a failed run leaves in the store\<close>
















end
